theory Spec2Isabelle
  imports Main "HOL-Library.Sublist"
begin

section \<open>Text\<close>

text \<open>
  A Python \<open>str\<close> is represented by its UTF-8 encoding, a \<open>string\<close>: every \<open>char\<close>
  below 0x80 is the ASCII character itself, and the bytes of every other character are
  all at or above 0x80. The classes below are those of Python's \<open>re\<close> module and of
  \<open>str\<close> on ASCII characters: \<open>\s\<close> matches the codes 9 to 13 and 28 to 32, \<open>\w\<close>
  matches letters, digits and the underscore.
\<close>

definition is_ascii :: "char \<Rightarrow> bool" where
  "is_ascii c = ((of_char c :: nat) < 128)"

definition is_space :: "char \<Rightarrow> bool" where
  "is_space c = (let n = (of_char c :: nat) in (9 \<le> n \<and> n \<le> 13) \<or> (28 \<le> n \<and> n \<le> 32))"

definition is_upper :: "char \<Rightarrow> bool" where
  "is_upper c = (let n = (of_char c :: nat) in 65 \<le> n \<and> n \<le> 90)"

definition is_lower :: "char \<Rightarrow> bool" where
  "is_lower c = (let n = (of_char c :: nat) in 97 \<le> n \<and> n \<le> 122)"

definition is_digit :: "char \<Rightarrow> bool" where
  "is_digit c = (let n = (of_char c :: nat) in 48 \<le> n \<and> n \<le> 57)"

definition is_word :: "char \<Rightarrow> bool" where
  "is_word c = (is_lower c \<or> is_upper c \<or> is_digit c \<or> c = CHR ''_'')"

definition lower_char :: "char \<Rightarrow> char" where
  "lower_char c = (if is_upper c then char_of ((of_char c :: nat) + 32) else c)"

text \<open>\<open>len(s)\<close> counts characters: the bytes that do not continue a UTF-8 sequence.\<close>

definition is_continuation :: "char \<Rightarrow> bool" where
  "is_continuation c = (let n = (of_char c :: nat) in 128 \<le> n \<and> n < 192)"

definition str_len :: "string \<Rightarrow> nat" where
  "str_len s = length (filter (\<lambda>c. \<not> is_continuation c) s)"

fun split_on :: "char \<Rightarrow> string \<Rightarrow> string list" where
  "split_on sep [] = [[]]"
| "split_on sep (c # cs) =
     (if c = sep then [] # split_on sep cs
      else (case split_on sep cs of p # ps \<Rightarrow> (c # p) # ps | [] \<Rightarrow> [[c]]))"

fun join_on :: "string \<Rightarrow> string list \<Rightarrow> string" where
  "join_on sep [] = []"
| "join_on sep [p] = p"
| "join_on sep (p # ps) = p @ sep @ join_on sep ps"

fun rfind :: "char \<Rightarrow> string \<Rightarrow> nat option" where
  "rfind c [] = None"
| "rfind c (x # xs) =
     (case rfind c xs of Some i \<Rightarrow> Some (Suc i) | None \<Rightarrow> if x = c then Some 0 else None)"

definition strip_chars :: "string \<Rightarrow> string \<Rightarrow> string" where
  "strip_chars chars s =
     rev (dropWhile (\<lambda>c. c \<in> set chars) (rev (dropWhile (\<lambda>c. c \<in> set chars) s)))"


section \<open>Slug derivation\<close>

text \<open>
  Modelled from the spec: \<open>slugify\<close> is imported from \<open>django.utils.text\<close> (models.py,
  line 12) and its body is not part of the sources. The spec describes it as
  lowercase, ASCII-folded, hyphen-separated, framework-standard slugify semantics; the
  definition follows the framework's function for \<open>allow_unicode=False\<close>:
  \<^verbatim>\<open>
    value = unicodedata.normalize("NFKD", value).encode("ascii", "ignore").decode("ascii")
    value = re.sub(r"[^\w\s-]", "", value.lower())
    return re.sub(r"[-\s]+", "-", value).strip("-_")
  \<close>
  The Unicode decomposition table is a parameter \<open>nfkd\<close>; encoding to ASCII with
  \<open>ignore\<close> drops every byte from 0x80.
\<close>

definition is_sep :: "char \<Rightarrow> bool" where
  "is_sep c = (c = CHR ''-'' \<or> is_space c)"

text \<open>\<open>re.sub(r"[-\s]+", "-", value)\<close>: \<open>in_run\<close> tells that the previous character
  belonged to the run being replaced.\<close>

fun collapse :: "bool \<Rightarrow> string \<Rightarrow> string" where
  "collapse in_run [] = []"
| "collapse in_run (c # cs) =
     (if is_sep c then (if in_run then collapse True cs else CHR ''-'' # collapse True cs)
      else c # collapse False cs)"

definition slugify :: "(string \<Rightarrow> string) \<Rightarrow> string \<Rightarrow> string" where
  "slugify nfkd v =
     (let v1 = filter is_ascii (nfkd v);
          v2 = filter (\<lambda>c. is_word c \<or> is_space c \<or> c = CHR ''-'') (map lower_char v1)
      in strip_chars ''-_'' (collapse False v2))"

text \<open>
  The shape of a slug: lowercase letters, digits, underscores and hyphens only, no two
  hyphens in a row, and neither a hyphen nor an underscore at either end.
\<close>

definition is_slug_char :: "char \<Rightarrow> bool" where
  "is_slug_char c = (is_lower c \<or> is_digit c \<or> c = CHR ''_'' \<or> c = CHR ''-'')"

fun no_double_hyphen :: "string \<Rightarrow> bool" where
  "no_double_hyphen (a # b # cs) = (\<not> (a = CHR ''-'' \<and> b = CHR ''-'') \<and> no_double_hyphen (b # cs))"
| "no_double_hyphen _ = True"

definition slug_shaped :: "string \<Rightarrow> bool" where
  "slug_shaped s =
     (list_all is_slug_char s \<and> no_double_hyphen s \<and>
      (s = [] \<or> (hd s \<notin> set ''-_'' \<and> last s \<notin> set ''-_'')))"

text \<open>NFKD leaves ASCII text as it is: no ASCII character has a decomposition.\<close>

definition nfkd_keeps_ascii :: "(string \<Rightarrow> string) \<Rightarrow> bool" where
  "nfkd_keeps_ascii nfkd = (\<forall>s. list_all is_ascii s \<longrightarrow> nfkd s = s)"


section \<open>Exceptions\<close>

text \<open>
  The subclasses of \<open>Exception\<close> the code can meet: the two errors of the database
  layer, \<open>ValueError\<close>, the missing related row, and \<open>ExternalError\<close> (with its
  \<open>repr\<close>) for whatever the image helper, boto3 or the email service raise.
\<close>

datatype exn = IntegrityError | DataError | ValueError | DoesNotExist | ExternalError string

fun exn_repr :: "exn \<Rightarrow> string" where
  "exn_repr IntegrityError = ''IntegrityError()''"
| "exn_repr DataError = ''DataError()''"
| "exn_repr ValueError = ''ValueError()''"
| "exn_repr DoesNotExist = ''RelatedObjectDoesNotExist()''"
| "exn_repr (ExternalError r) = r"


section \<open>Paths\<close>

text \<open>
  \<open>pathlib.Path\<close> on a POSIX host, as far as line 138 uses it: the constructor, \<open>str\<close>,
  \<open>name\<close>, \<open>suffix\<close> and \<open>with_suffix\<close>. Parsing drops empty components and \<open>.\<close>
  components; exactly two leading slashes are kept as the root \<open>//\<close>, any other
  number is the root \<open>/\<close>.
\<close>

record pure_path =
  root :: string
  parts :: "string list"

definition posix_root :: "string \<Rightarrow> string" where
  "posix_root s =
     (let n = length (takeWhile (\<lambda>c. c = CHR ''/'') s)
      in if n = 0 then [] else if n = 2 then ''//'' else ''/'')"

definition Path :: "string \<Rightarrow> pure_path" where
  "Path s = \<lparr>root = posix_root s,
            parts = filter (\<lambda>x. x \<noteq> [] \<and> x \<noteq> ''.'') (split_on CHR ''/'' s)\<rparr>"

definition path_str :: "pure_path \<Rightarrow> string" where
  "path_str p = (let s = root p @ join_on ''/'' (parts p) in if s = [] then ''.'' else s)"

definition path_name :: "pure_path \<Rightarrow> string" where
  "path_name p = (if parts p = [] then [] else last (parts p))"

definition path_suffix :: "pure_path \<Rightarrow> string" where
  "path_suffix p =
     (let name = path_name p in
      case rfind CHR ''.'' name of
        Some i \<Rightarrow> if 0 < i \<and> i < length name - 1 then drop i name else []
      | None \<Rightarrow> [])"

definition with_suffix :: "pure_path \<Rightarrow> string \<Rightarrow> exn + pure_path" where
  "with_suffix p sfx =
     (if CHR ''/'' \<in> set sfx then Inl ValueError
      else if (sfx \<noteq> [] \<and> hd sfx \<noteq> CHR ''.'') \<or> sfx = ''.'' then Inl ValueError
      else let name = path_name p in
        if name = [] then Inl ValueError
        else let old_suffix = path_suffix p;
                 name' = (if old_suffix = [] then name @ sfx
                          else take (length name - length old_suffix) name @ sfx)
             in Inr (p\<lparr>parts := butlast (parts p) @ [name']\<rparr>))"


section \<open>Data model\<close>

text \<open>
  The rows of models.py. Two fields of the source share a name across the classes
  (\<open>id\<close>, \<open>summary\<close>, \<open>image\<close>), so they carry the class as a prefix here; the foreign
  key \<open>Item.category_name\<close> is the column \<open>category_name_id\<close>. An image field is
  represented by the name of its file, \<open>[]\<close> when no file is associated with it. An
  \<open>id\<close> is \<open>None\<close> until the row is first written.
\<close>

type_synonym image = string

record category =
  category_id :: "nat option"
  category_name :: string
  category_summary :: string
  category_image :: image
  category_slug :: string

record item =
  item_id :: "nat option"
  item_name :: string
  item_summary :: string
  item_image :: image
  image_thumbnail :: image
  content :: string
  date_published :: nat
  item_slug :: string
  category_name_id :: nat
  views :: int

record user =
  username :: string
  email :: string

record db =
  categories :: "category list"
  items :: "item list"
  users :: "user list"

definition THUMBNAIL_SUFFIX :: string where
  "THUMBNAIL_SUFFIX = ''_resized''"

text \<open>The declared limits of the columns (models.py, lines 28-35 and 73-91).\<close>

definition NAME_MAX_LENGTH :: nat where
  "NAME_MAX_LENGTH = 200"

definition SUMMARY_MAX_LENGTH :: nat where
  "SUMMARY_MAX_LENGTH = 200"

definition SLUG_MAX_LENGTH :: nat where
  "SLUG_MAX_LENGTH = 50"

definition DEFAULT_CATEGORY :: nat where
  "DEFAULT_CATEGORY = 1"


section \<open>The email request and the trace of effects\<close>

record destination =
  ToAddresses :: "string list"
  ReplacementTemplateData :: string

record request =
  Source :: string
  SourceArn :: string
  ReplyToAddresses :: "string list"
  DefaultTags :: "string list"
  Template :: string
  DefaultTemplateData :: string
  Destinations :: "destination list"

text \<open>
  What a call does besides returning: the row it writes, the entry into
  \<open>notify_registered_users\<close>, the query for all users, the request sent to the email
  service, and the lines it logs.
\<close>

datatype event =
    Persisted item
  | NotifyCalled
  | UsersQueried
  | SesSend request
  | LogInfo string
  | LogError string

fun is_ses_send :: "event \<Rightarrow> bool" where
  "is_ses_send (SesSend r) = True"
| "is_ses_send _ = False"


section \<open>The environment\<close>

text \<open>
  What the module takes from outside the sources: the configuration value
  \<open>SES_IDENTITY_ARN\<close> (from \<open>app.config\<close>), the helper \<open>resize_image\<close> of
  \<open>BaseModelMixin\<close> (called with a suffix or without one), the storage's URL of a file
  name, the decomposition table for \<open>slugify\<close>, \<open>str.title\<close>, \<open>json.dumps\<close>, and the
  behaviour of boto3: whether building the client raises, and what the bulk send answers
  (the text of its response) or raises.
\<close>

record env =
  SES_IDENTITY_ARN :: "string option"
  resize_image :: "image \<Rightarrow> string option \<Rightarrow> exn + image"
  storage_url :: "string \<Rightarrow> string"
  nfkd :: "string \<Rightarrow> string"
  str_title :: "string \<Rightarrow> string"
  json_dumps :: "(string \<times> string) list \<Rightarrow> string"
  boto3_client :: "exn option"
  send_bulk_templated_email :: "request \<Rightarrow> exn + string"


section \<open>The database layer\<close>

text \<open>
  Modelled from the spec: \<open>models.Model.save\<close> and \<open>models.Model.delete\<close> belong to the
  framework and are not part of the sources. The spec has a write fail on a uniqueness
  violation and has the category reference of an Item fall back to the default
  Category when its Category is deleted. The store enforces what the columns declare:
  the maximum lengths, uniqueness of name and slug, and the foreign key. A row with no
  \<open>id\<close> is inserted under a fresh one; a row with an \<open>id\<close> replaces the row of that
  \<open>id\<close>, or is inserted under it when there is none.
\<close>

definition fresh_id :: "nat option list \<Rightarrow> nat" where
  "fresh_id ids = Suc (fold max (map (\<lambda>i. case i of None \<Rightarrow> 0 | Some n \<Rightarrow> n) ids) 0)"

definition category_exists :: "db \<Rightarrow> nat \<Rightarrow> bool" where
  "category_exists d cid = list_ex (\<lambda>c. category_id c = Some cid) (categories d)"

definition item_unique :: "db \<Rightarrow> item \<Rightarrow> bool" where
  "item_unique d self =
     list_all (\<lambda>r. item_id r = item_id self \<or>
                    (item_name r \<noteq> item_name self \<and> item_slug r \<noteq> item_slug self))
       (filter (\<lambda>r. item_id r \<noteq> None) (items d))"

definition category_unique :: "db \<Rightarrow> category \<Rightarrow> bool" where
  "category_unique d self =
     list_all (\<lambda>r. category_id r = category_id self \<or>
                    (category_name r \<noteq> category_name self \<and>
                     category_slug r \<noteq> category_slug self))
       (filter (\<lambda>r. category_id r \<noteq> None) (categories d))"

definition write_item :: "item list \<Rightarrow> item \<Rightarrow> item list" where
  "write_item rows self =
     (if list_ex (\<lambda>r. item_id r = item_id self) rows
      then map (\<lambda>r. if item_id r = item_id self then self else r) rows
      else rows @ [self])"

definition write_category :: "category list \<Rightarrow> category \<Rightarrow> category list" where
  "write_category rows self =
     (if list_ex (\<lambda>r. category_id r = category_id self) rows
      then map (\<lambda>r. if category_id r = category_id self then self else r) rows
      else rows @ [self])"

definition Model_save_item :: "db \<Rightarrow> item \<Rightarrow> exn + (item \<times> db)" where
  "Model_save_item d self =
     (if NAME_MAX_LENGTH < str_len (item_name self) \<or>
         SUMMARY_MAX_LENGTH < str_len (item_summary self) \<or>
         SLUG_MAX_LENGTH < str_len (item_slug self) then Inl DataError
      else if \<not> item_unique d self then Inl IntegrityError
      else if \<not> category_exists d (category_name_id self) then Inl IntegrityError
      else let self' = (case item_id self of
                          None \<Rightarrow> self\<lparr>item_id := Some (fresh_id (map item_id (items d)))\<rparr>
                        | Some i \<Rightarrow> self)
           in Inr (self', d\<lparr>items := write_item (items d) self'\<rparr>))"

definition Model_save_category :: "db \<Rightarrow> category \<Rightarrow> exn + (category \<times> db)" where
  "Model_save_category d self =
     (if NAME_MAX_LENGTH < str_len (category_name self) \<or>
         SLUG_MAX_LENGTH < str_len (category_slug self) then Inl DataError
      else if \<not> category_unique d self then Inl IntegrityError
      else let self' = (case category_id self of
                          None \<Rightarrow> self\<lparr>category_id :=
                                      Some (fresh_id (map category_id (categories d)))\<rparr>
                        | Some i \<Rightarrow> self)
           in Inr (self', d\<lparr>categories := write_category (categories d) self'\<rparr>))"

text \<open>
  Deleting a Category under \<open>on_delete=SET_DEFAULT\<close> with \<open>default=1\<close> (line 88-90):
  the Items that refer to it are updated to the default, the row is deleted, and the
  foreign key is checked when the transaction commits; a violation rolls all of it back.
\<close>

definition set_default :: "nat \<Rightarrow> item \<Rightarrow> item" where
  "set_default cid r =
     (if category_name_id r = cid then r\<lparr>category_name_id := DEFAULT_CATEGORY\<rparr> else r)"

definition Model_delete_category :: "db \<Rightarrow> nat \<Rightarrow> exn + db" where
  "Model_delete_category d cid =
     (let d' = d\<lparr>items := map (set_default cid) (items d),
                  categories := filter (\<lambda>c. category_id c \<noteq> Some cid) (categories d)\<rparr>
      in if list_all (\<lambda>r. category_exists d' (category_name_id r)) (items d') then Inr d'
         else Inl IntegrityError)"


section \<open>Category and Item\<close>

text \<open>
  A method returns what it raised or \<open>Inr ()\<close>, the object as the call left it (it is
  mutated in place, also when the call raises), the database and the trace.
\<close>

definition Category_save ::
    "env \<Rightarrow> db \<Rightarrow> category \<Rightarrow> (exn + unit) \<times> category \<times> db \<times> event list" where
  "Category_save e d self =
     (case resize_image e (category_image self) None of
        Inl x \<Rightarrow> (Inl x, self, d, [])
      | Inr img \<Rightarrow>
          let self1 = self\<lparr>category_image := img\<rparr>;
              self2 = self1\<lparr>category_slug := slugify (nfkd e) (category_name self1)\<rparr>
          in (case Model_save_category d self2 of
                Inl x \<Rightarrow> (Inl x, self2, d, [])
              | Inr (self3, d') \<Rightarrow> (Inr (), self3, d', [])))"

text \<open>\<open>FieldFile.url\<close> raises \<open>ValueError\<close> when the field has no file.\<close>

definition image_url :: "env \<Rightarrow> image \<Rightarrow> exn + string" where
  "image_url e img = (if img = [] then Inl ValueError else Inr (storage_url e img))"

text \<open>The related Category of an Item, fetched by its key.\<close>

definition related_category :: "db \<Rightarrow> item \<Rightarrow> exn + category" where
  "related_category d self =
     (case find (\<lambda>c. category_id c = Some (category_name_id self)) (categories d) of
        None \<Rightarrow> Inl DoesNotExist
      | Some c \<Rightarrow> Inr c)"

text \<open>Line 138: the thumbnail's URL as a path, without its suffix, then the two fixed ends.\<close>

definition recette_image_url_path :: "env \<Rightarrow> item \<Rightarrow> exn + string" where
  "recette_image_url_path e self =
     (case image_url e (image_thumbnail self) of
        Inl x \<Rightarrow> Inl x
      | Inr url \<Rightarrow>
          (case with_suffix (Path url) [] of
             Inl x \<Rightarrow> Inl x
           | Inr p \<Rightarrow> Inr (path_str p @ THUMBNAIL_SUFFIX @ ''.jpg'')))"

text \<open>Lines 134-141: the dictionary of one recipient, in the order it is written.\<close>

definition template_data :: "env \<Rightarrow> db \<Rightarrow> item \<Rightarrow> user \<Rightarrow> exn + (string \<times> string) list" where
  "template_data e d self u =
     (case related_category d self of
        Inl x \<Rightarrow> Inl x
      | Inr c \<Rightarrow>
          (case recette_image_url_path e self of
             Inl x \<Rightarrow> Inl x
           | Inr img_path \<Rightarrow>
               Inr [(''base_url'', ''https://tari.kitchen''),
                    (''item_name'', item_name self),
                    (''item_url_path'', ''/items/'' @ category_slug c @ ''/'' @ item_slug self),
                    (''recette_image_url_path'', img_path),
                    (''username'', str_title e (username u)),
                    (''email'', email u)]))"

text \<open>Lines 130-145: one destination per user; the first one that raises ends the list.\<close>

fun destinations :: "env \<Rightarrow> db \<Rightarrow> item \<Rightarrow> user list \<Rightarrow> exn + destination list" where
  "destinations e d self [] = Inr []"
| "destinations e d self (u # us) =
     (case template_data e d self u of
        Inl x \<Rightarrow> Inl x
      | Inr td \<Rightarrow>
          (case destinations e d self us of
             Inl x \<Rightarrow> Inl x
           | Inr ds \<Rightarrow>
               Inr (\<lparr>ToAddresses = [email u], ReplacementTemplateData = json_dumps e td\<rparr> # ds)))"

definition bulk_request :: "string \<Rightarrow> destination list \<Rightarrow> request" where
  "bulk_request arn ds =
     \<lparr>Source = ''tari-alerts@tari.kitchen'', SourceArn = arn, ReplyToAddresses = [],
      DefaultTags = [], Template = ''ItemCreatedNotification'',
      DefaultTemplateData = ''{ \"base_url\":\"https://tari.kitchen\" }'',
      Destinations = ds\<rparr>"

definition arn_set :: "env \<Rightarrow> bool" where
  "arn_set e = (case SES_IDENTITY_ARN e of None \<Rightarrow> False | Some arn \<Rightarrow> arn \<noteq> [])"

definition notify_registered_users :: "env \<Rightarrow> db \<Rightarrow> item \<Rightarrow> (exn + unit) \<times> event list" where
  "notify_registered_users e d self =
     (case boto3_client e of
        Some x \<Rightarrow> (Inl x, [NotifyCalled])
      | None \<Rightarrow>
          (case destinations e d self (users d) of
             Inl x \<Rightarrow> (Inl x, [NotifyCalled, UsersQueried])
           | Inr ds \<Rightarrow>
               (case SES_IDENTITY_ARN e of
                  None \<Rightarrow>
                    (Inr (), [NotifyCalled, UsersQueried,
                       LogInfo ''SES_IDENTITY_ARN not set, therefore email notifications are disabled.''])
                | Some arn \<Rightarrow>
                    if arn = [] then
                      (Inr (), [NotifyCalled, UsersQueried,
                         LogInfo ''SES_IDENTITY_ARN not set, therefore email notifications are disabled.''])
                    else
                      (case send_bulk_templated_email e (bulk_request arn ds) of
                         Inr response \<Rightarrow>
                           (Inr (), [NotifyCalled, UsersQueried, SesSend (bulk_request arn ds),
                              LogInfo (''SES notification was successful. response: '' @ response)])
                       | Inl ses_err \<Rightarrow>
                           (Inr (), [NotifyCalled, UsersQueried, SesSend (bulk_request arn ds),
                              LogError (''Failed to send SES email notification: '' @
                                        exn_repr ses_err)])))))"

definition Item_save ::
    "env \<Rightarrow> db \<Rightarrow> item \<Rightarrow> (exn + unit) \<times> item \<times> db \<times> event list" where
  "Item_save e d self =
     (case resize_image e (item_image self) (Some THUMBNAIL_SUFFIX) of
        Inl x \<Rightarrow> (Inl x, self, d, [])
      | Inr thumb \<Rightarrow>
          let self1 = self\<lparr>image_thumbnail := thumb\<rparr>;
              self2 = self1\<lparr>item_slug := slugify (nfkd e) (item_name self1)\<rparr>
          in (case Model_save_item d self2 of
                Inl x \<Rightarrow> (Inl x, self2, d, [])
              | Inr (self3, d') \<Rightarrow>
                  (case notify_registered_users e d' self3 of
                     (r, evs) \<Rightarrow> (r, self3, d', Persisted self3 # evs))))"

definition increment_views ::
    "env \<Rightarrow> db \<Rightarrow> item \<Rightarrow> (exn + unit) \<times> item \<times> db \<times> event list" where
  "increment_views e d self = Item_save e d (self\<lparr>views := views self + 1\<rparr>)"

text \<open>The object as \<open>Item.save\<close> has it when it calls \<open>super().save\<close> (lines 101-102).\<close>

definition prepared :: "env \<Rightarrow> item \<Rightarrow> image \<Rightarrow> item" where
  "prepared e self thumb =
     self\<lparr>image_thumbnail := thumb, item_slug := slugify (nfkd e) (item_name self)\<rparr>"


section \<open>A small site\<close>

text \<open>
  One category, one registered user and a recipe that has not been saved yet, in an
  environment where every outside call succeeds.
\<close>

definition example_env :: env where
  "example_env =
     \<lparr>SES_IDENTITY_ARN = Some ''arn:aws:ses:eu-west-1:1:identity/tari.kitchen'',
      resize_image = (\<lambda>img sfx. if img = [] then Inl (ExternalError ''UnidentifiedImageError()'')
                                else Inr (img @ (case sfx of None \<Rightarrow> [] | Some s \<Rightarrow> s) @ ''.jpg'')),
      storage_url = (\<lambda>name. ''/media/'' @ name),
      nfkd = (\<lambda>s. s),
      str_title = (\<lambda>s. s),
      json_dumps = (\<lambda>td. concat (map (\<lambda>(k, v). k @ ''='' @ v @ '';'') td)),
      boto3_client = None,
      send_bulk_templated_email = (\<lambda>r. Inr ''ok'')\<rparr>"

definition example_db :: db where
  "example_db =
     \<lparr>categories = [\<lparr>category_id = Some 1, category_name = ''Soups'', category_summary = ''Warm'',
                      category_image = ''uploads/soups.jpg'', category_slug = ''soups''\<rparr>],
      items = [],
      users = [\<lparr>username = ''ada'', email = ''ada@example.org''\<rparr>]\<rparr>"

definition example_item :: item where
  "example_item =
     \<lparr>item_id = None, item_name = ''Tomato Soup'', item_summary = ''A soup'',
      item_image = ''uploads/soup.png'', image_thumbnail = [], content = ''<p></p>'',
      date_published = 0, item_slug = [], category_name_id = 1, views = 0\<rparr>"

text \<open>The email service is down: every bulk send raises.\<close>

definition ses_down :: env where
  "ses_down = example_env\<lparr>send_bulk_templated_email := (\<lambda>r. Inl (ExternalError ''ClientError()''))\<rparr>"

text \<open>No outbound identity is configured.\<close>

definition no_arn :: env where
  "no_arn = example_env\<lparr>SES_IDENTITY_ARN := None\<rparr>"


text \<open>The recipe's name is already taken by a stored row.\<close>

definition taken_db :: db where
  "taken_db = example_db\<lparr>items := [example_item\<lparr>item_id := Some 1, item_slug := ''tomato-soup''\<rparr>]\<rparr>"


text \<open>A category that has not been saved, with a slug its caller wrote by hand.\<close>

definition example_category :: category where
  "example_category =
     \<lparr>category_id = None, category_name = ''Main Dishes'', category_summary = ''Mains'',
      category_image = ''uploads/mains.png'', category_slug = ''handmade''\<rparr>"

text \<open>The recipe with a slug and a thumbnail its caller wrote by hand.\<close>

definition handmade_item :: item where
  "handmade_item = example_item\<lparr>item_slug := ''handmade'', image_thumbnail := ''mine.jpg''\<rparr>"


text \<open>No outbound identity, and an image helper that hands back an image with no file.\<close>

definition no_file_env :: env where
  "no_file_env = no_arn\<lparr>resize_image := (\<lambda>img sfx. Inr [])\<rparr>"


text \<open>Two categories, the default one and a second one with a recipe of its own.\<close>

definition shelf_db :: db where
  "shelf_db =
     \<lparr>categories =
        [\<lparr>category_id = Some 1, category_name = ''Soups'', category_summary = ''Warm'',
          category_image = ''uploads/soups.jpg'', category_slug = ''soups''\<rparr>,
         \<lparr>category_id = Some 2, category_name = ''Cakes'', category_summary = ''Sweet'',
          category_image = ''uploads/cakes.jpg'', category_slug = ''cakes''\<rparr>],
      items =
        [example_item\<lparr>item_id := Some 1, item_slug := ''tomato-soup''\<rparr>,
         example_item\<lparr>item_id := Some 2, item_name := ''Lemon Cake'', item_slug := ''lemon-cake'',
                        category_name_id := 2, views := 5\<rparr>],
      users = []\<rparr>"


text \<open>No outbound identity, and no region configured for boto3: creating the client raises.\<close>

definition no_region :: env where
  "no_region = no_arn\<lparr>boto3_client := Some (ExternalError ''NoRegionError()'')\<rparr>"

text \<open>The image helper cannot read any image.\<close>

definition no_pillow :: env where
  "no_pillow =
     example_env\<lparr>resize_image := (\<lambda>img sfx. Inl (ExternalError ''UnidentifiedImageError()''))\<rparr>"

text \<open>The stored recipe of \<open>taken_db\<close>.\<close>

definition stored_item :: item where
  "stored_item = example_item\<lparr>item_id := Some 1, item_slug := ''tomato-soup''\<rparr>"








section \<open>The control flow of save and notify\<close>

lemma write_item_mem: "self \<in> set (write_item rows self)"
  by (auto simp: write_item_def list_ex_iff)

lemma Model_save_item_mem:
  "Model_save_item d s = Inr (s', d') \<Longrightarrow> s' \<in> set (items d')"
  by (auto simp: Model_save_item_def Let_def write_item_mem split: if_splits)

lemma Model_save_item_frame:
  "Model_save_item d s = Inr (s', d') \<Longrightarrow>
     categories d' = categories d \<and> users d' = users d \<and> items d' = write_item (items d) s'"
  by (auto simp: Model_save_item_def Let_def split: if_splits)

lemma Model_save_item_category:
  "Model_save_item d s = Inr (s', d') \<Longrightarrow> category_exists d' (category_name_id s')"
  by (auto simp: Model_save_item_def Let_def category_exists_def split: if_splits option.splits)

text \<open>The five ways through \<open>notify_registered_users\<close>.\<close>

lemma notify_cases:
  "notify_registered_users e d s = (r, evs) \<Longrightarrow>
     (\<exists>x. boto3_client e = Some x \<and> r = Inl x \<and> evs = [NotifyCalled]) \<or>
     (\<exists>x. boto3_client e = None \<and> destinations e d s (users d) = Inl x \<and> r = Inl x \<and>
          evs = [NotifyCalled, UsersQueried]) \<or>
     (\<exists>ds. boto3_client e = None \<and> destinations e d s (users d) = Inr ds \<and> \<not> arn_set e \<and>
           r = Inr () \<and>
           evs = [NotifyCalled, UsersQueried,
                  LogInfo ''SES_IDENTITY_ARN not set, therefore email notifications are disabled.'']) \<or>
     (\<exists>ds arn response. boto3_client e = None \<and> destinations e d s (users d) = Inr ds \<and>
           arn_set e \<and> SES_IDENTITY_ARN e = Some arn \<and>
           send_bulk_templated_email e (bulk_request arn ds) = Inr response \<and> r = Inr () \<and>
           evs = [NotifyCalled, UsersQueried, SesSend (bulk_request arn ds),
                  LogInfo (''SES notification was successful. response: '' @ response)]) \<or>
     (\<exists>ds arn x. boto3_client e = None \<and> destinations e d s (users d) = Inr ds \<and>
           arn_set e \<and> SES_IDENTITY_ARN e = Some arn \<and>
           send_bulk_templated_email e (bulk_request arn ds) = Inl x \<and> r = Inr () \<and>
           evs = [NotifyCalled, UsersQueried, SesSend (bulk_request arn ds),
                  LogError (''Failed to send SES email notification: '' @ exn_repr x)])"
  unfolding notify_registered_users_def arn_set_def
  by (auto split: option.splits sum.splits if_splits)

text \<open>The three ways through \<open>Item.save\<close>.\<close>

lemma Item_save_cases:
  "Item_save e d self = (r, self', d', evs) \<Longrightarrow>
     (\<exists>x. resize_image e (item_image self) (Some THUMBNAIL_SUFFIX) = Inl x \<and>
          r = Inl x \<and> self' = self \<and> d' = d \<and> evs = []) \<or>
     (\<exists>thumb x. resize_image e (item_image self) (Some THUMBNAIL_SUFFIX) = Inr thumb \<and>
          Model_save_item d (prepared e self thumb) = Inl x \<and>
          r = Inl x \<and> self' = prepared e self thumb \<and> d' = d \<and> evs = []) \<or>
     (\<exists>thumb nevs. resize_image e (item_image self) (Some THUMBNAIL_SUFFIX) = Inr thumb \<and>
          Model_save_item d (prepared e self thumb) = Inr (self', d') \<and>
          notify_registered_users e d' self' = (r, nevs) \<and> evs = Persisted self' # nevs)"
  unfolding Item_save_def prepared_def
  by (auto simp: Let_def split: sum.splits prod.splits)

lemma destinations_length:
  "destinations e d self us = Inr ds \<Longrightarrow> length ds = length us"
  by (induction us arbitrary: ds) (auto split: sum.splits)

lemma destinations_all_built:
  "destinations e d self us = Inr ds \<Longrightarrow>
     map ToAddresses ds = map (\<lambda>u. [email u]) us \<and>
     list_all (\<lambda>u. \<exists>td. template_data e d self u = Inr td) us"
  by (induction us arbitrary: ds) (auto split: sum.splits)

lemma template_data_no_file:
  "image_thumbnail self = [] \<Longrightarrow> related_category d self = Inr c \<Longrightarrow>
     template_data e d self u = Inl ValueError"
  by (simp add: template_data_def recette_image_url_path_def image_url_def)

lemma related_category_exists:
  "category_exists d (category_name_id self) \<Longrightarrow> \<exists>c. related_category d self = Inr c"
  unfolding category_exists_def related_category_def list_ex_iff
  by (auto split: option.splits simp: find_None_iff)


text \<open>
  C1. Whatever exception the bulk send raises during \<open>Item.save\<close>, it is caught in
  \<open>notify_registered_users\<close> and logged, and it is not raised again: the save returns
  normally and the row it wrote is in the store. The premises say that the request
  \<open>req\<close> was sent during this save and that the service raised \<open>x\<close> on it.
\<close>

theorem Item_save_survives_ses_error:
  "Item_save e d self = (r, self', d', evs) \<Longrightarrow> SesSend req \<in> set evs \<Longrightarrow>
   send_bulk_templated_email e req = Inl x \<Longrightarrow>
     r = Inr () \<and> self' \<in> set (items d') \<and> Persisted self' \<in> set evs \<and>
     last evs = LogError (''Failed to send SES email notification: '' @ exn_repr x)"
proof -
  assume s: "Item_save e d self = (r, self', d', evs)"
    and q: "SesSend req \<in> set evs"
    and x: "send_bulk_templated_email e req = Inl x"
  from Item_save_cases [OF s] q obtain thumb nevs where
    m: "Model_save_item d (prepared e self thumb) = Inr (self', d')" and
    n: "notify_registered_users e d' self' = (r, nevs)" and
    evs: "evs = Persisted self' # nevs"
    by auto
  from q evs have q': "SesSend req \<in> set nevs" by simp
  from notify_cases [OF n] q' x
  have "r = Inr () \<and> nevs \<noteq> [] \<and>
        last nevs = LogError (''Failed to send SES email notification: '' @ exn_repr x)"
    by auto
  with evs Model_save_item_mem [OF m] show ?thesis by simp
qed

theorem Item_save_survives_ses_error_witness:
  "\<exists>r self' d' evs req.
     Item_save ses_down example_db example_item = (r, self', d', evs) \<and>
     SesSend req \<in> set evs \<and>
     send_bulk_templated_email ses_down req = Inl (ExternalError ''ClientError()'') \<and>
     r = Inr () \<and> self' \<in> set (items d') \<and>
     last evs = LogError ''Failed to send SES email notification: ClientError()''"
proof -
  obtain r self' d' evs where s: "Item_save ses_down example_db example_item = (r, self', d', evs)"
    by (metis prod_cases4)
  have "list_ex is_ses_send (snd (snd (snd (Item_save ses_down example_db example_item))))"
    by code_simp
  with s obtain req where q: "SesSend req \<in> set evs"
    by (auto simp: list_ex_iff elim: is_ses_send.elims)
  have x: "send_bulk_templated_email ses_down req = Inl (ExternalError ''ClientError()'')"
    by (simp add: ses_down_def)
  from Item_save_survives_ses_error [OF s q x] s q x show ?thesis
    by auto
qed

text \<open>
  C3. \<open>Item.save\<close> enters \<open>notify_registered_users\<close> only after the row has been
  written: when the trace holds \<open>NotifyCalled\<close>, the image was resized, the store
  accepted the row, the trace starts with \<open>Persisted\<close> and the row is in the store. When
  the resize raises, or the store refuses the row, the save raises the same exception,
  nothing is traced (no notification is attempted) and the store is as it was.
\<close>

theorem Item_save_notifies_only_after_persisting:
  "Item_save e d self = (r, self', d', evs) \<Longrightarrow>
     (NotifyCalled \<in> set evs \<longrightarrow>
        (\<exists>thumb rest. resize_image e (item_image self) (Some THUMBNAIL_SUFFIX) = Inr thumb \<and>
           Model_save_item d (prepared e self thumb) = Inr (self', d') \<and>
           evs = Persisted self' # rest \<and> self' \<in> set (items d'))) \<and>
     (\<forall>x. resize_image e (item_image self) (Some THUMBNAIL_SUFFIX) = Inl x \<longrightarrow>
        r = Inl x \<and> evs = [] \<and> d' = d) \<and>
     (\<forall>thumb x. resize_image e (item_image self) (Some THUMBNAIL_SUFFIX) = Inr thumb \<and>
        Model_save_item d (prepared e self thumb) = Inl x \<longrightarrow>
        r = Inl x \<and> evs = [] \<and> d' = d)"
  by (drule Item_save_cases) (auto dest: Model_save_item_mem)

theorem Item_save_notifies_only_after_persisting_witness:
  "(\<exists>r self' d' evs rest.
      Item_save example_env example_db example_item = (r, self', d', evs) \<and>
      NotifyCalled \<in> set evs \<and> evs = Persisted self' # rest \<and> self' \<in> set (items d')) \<and>
   (\<exists>r self' d' evs.
      Item_save example_env example_db (example_item\<lparr>item_image := []\<rparr>) = (r, self', d', evs) \<and>
      resize_image example_env [] (Some THUMBNAIL_SUFFIX) =
        Inl (ExternalError ''UnidentifiedImageError()'') \<and>
      r = Inl (ExternalError ''UnidentifiedImageError()'') \<and> evs = [] \<and> d' = example_db) \<and>
   (\<exists>r self' d' evs.
      Item_save example_env taken_db example_item = (r, self', d', evs) \<and>
      r = Inl IntegrityError \<and> evs = [] \<and> d' = taken_db)"
proof -
  obtain r1 s1 d1 evs1 where
    h1: "Item_save example_env example_db example_item = (r1, s1, d1, evs1)"
    by (metis prod_cases4)
  have "NotifyCalled \<in> set (snd (snd (snd (Item_save example_env example_db example_item))))"
    by code_simp
  with h1 have n1: "NotifyCalled \<in> set evs1" by simp
  from Item_save_notifies_only_after_persisting [OF h1] n1
  have c1: "\<exists>rest. evs1 = Persisted s1 # rest \<and> s1 \<in> set (items d1)" by blast
  obtain r2 s2 d2 evs2 where
    h2: "Item_save example_env example_db (example_item\<lparr>item_image := []\<rparr>) = (r2, s2, d2, evs2)"
    by (metis prod_cases4)
  have z2: "resize_image example_env (item_image (example_item\<lparr>item_image := []\<rparr>))
              (Some THUMBNAIL_SUFFIX) = Inl (ExternalError ''UnidentifiedImageError()'')"
    by (simp add: example_env_def)
  from Item_save_notifies_only_after_persisting [OF h2] z2
  have c2: "r2 = Inl (ExternalError ''UnidentifiedImageError()'') \<and> evs2 = [] \<and> d2 = example_db"
    by blast
  obtain r3 s3 d3 evs3 where
    h3: "Item_save example_env taken_db example_item = (r3, s3, d3, evs3)"
    by (metis prod_cases4)
  have z3: "resize_image example_env (item_image example_item)
              (Some THUMBNAIL_SUFFIX) = Inr ''uploads/soup.png_resized.jpg''"
    by (simp add: example_env_def example_item_def THUMBNAIL_SUFFIX_def)
  have m3: "Model_save_item taken_db
              (prepared example_env example_item ''uploads/soup.png_resized.jpg'') =
            Inl IntegrityError"
    by code_simp
  from Item_save_notifies_only_after_persisting [OF h3] z3 m3
  have c3: "r3 = Inl IntegrityError \<and> evs3 = [] \<and> d3 = taken_db"
    by blast
  from h1 n1 c1 h2 z2 c2 h3 c3 show ?thesis by auto
qed

text \<open>
  C2. With no outbound identity configured (\<open>SES_IDENTITY_ARN\<close> is \<open>None\<close> or empty),
  \<open>Item.save\<close> never calls the email service: no \<open>SesSend\<close> is in its trace, whatever
  else happens. The save returns normally exactly when the row was written and the
  statements above the test of the identity (the boto3 client, the query of the users,
  the payloads) went through: then the notifier logs the informational line and
  returns, with the row in the store. Those statements are outside the \<open>try\<close>: when
  the client or a payload raises, that exception is the outcome of the save, with the
  row already written.
\<close>

theorem Item_save_without_identity:
  "\<not> arn_set e \<Longrightarrow> Item_save e d self = (r, self', d', evs) \<Longrightarrow>
     \<not> list_ex is_ses_send evs \<and>
     (Persisted self' \<in> set evs \<and> boto3_client e = None \<and>
      destinations e d' self' (users d') = Inr ds \<longrightarrow>
        r = Inr () \<and> self' \<in> set (items d') \<and>
        evs = [Persisted self', NotifyCalled, UsersQueried,
               LogInfo ''SES_IDENTITY_ARN not set, therefore email notifications are disabled.'']) \<and>
     (r = Inr () \<longrightarrow>
        Persisted self' \<in> set evs \<and> boto3_client e = None \<and>
        (\<exists>ds. destinations e d' self' (users d') = Inr ds)) \<and>
     (Persisted self' \<in> set evs \<and> boto3_client e = Some x \<longrightarrow>
        r = Inl x \<and> evs = [Persisted self', NotifyCalled]) \<and>
     (Persisted self' \<in> set evs \<and> boto3_client e = None \<and>
      destinations e d' self' (users d') = Inl x \<longrightarrow>
        r = Inl x \<and> evs = [Persisted self', NotifyCalled, UsersQueried])"
proof -
  assume a: "\<not> arn_set e" and s: "Item_save e d self = (r, self', d', evs)"
  from Item_save_cases [OF s] show ?thesis
  proof (elim disjE exE conjE)
    fix thumb nevs
    assume m: "Model_save_item d (prepared e self thumb) = Inr (self', d')"
      and n: "notify_registered_users e d' self' = (r, nevs)"
      and evs: "evs = Persisted self' # nevs"
    from notify_cases [OF n] a evs Model_save_item_mem [OF m] show ?thesis
      by auto
  qed auto
qed


theorem Item_save_without_identity_witness:
  "\<not> arn_set no_arn \<and>
   (\<exists>self' d' ds.
      Item_save no_arn example_db example_item =
        (Inr (), self', d',
         [Persisted self', NotifyCalled, UsersQueried,
          LogInfo ''SES_IDENTITY_ARN not set, therefore email notifications are disabled.'']) \<and>
      boto3_client no_arn = None \<and> destinations no_arn d' self' (users d') = Inr ds \<and>
      self' \<in> set (items d'))"
proof -
  have a: "\<not> arn_set no_arn" by (simp add: arn_set_def no_arn_def)
  obtain r self' d' evs where
    s: "Item_save no_arn example_db example_item = (r, self', d', evs)"
    by (metis prod_cases4)
  have b: "boto3_client no_arn = None" by (simp add: no_arn_def example_env_def)
  have "hd (snd (snd (snd (Item_save no_arn example_db example_item)))) =
          Persisted (fst (snd (Item_save no_arn example_db example_item)))"
    by code_simp
  moreover have "snd (snd (snd (Item_save no_arn example_db example_item))) \<noteq> []"
    by code_simp
  ultimately have p: "Persisted self' \<in> set evs"
    using s by (cases evs) auto
  have "case destinations no_arn
          (fst (snd (snd (Item_save no_arn example_db example_item))))
          (fst (snd (Item_save no_arn example_db example_item)))
          (users (fst (snd (snd (Item_save no_arn example_db example_item))))) of
          Inl x \<Rightarrow> False | Inr ds \<Rightarrow> True"
    by code_simp
  with s obtain ds where ds: "destinations no_arn d' self' (users d') = Inr ds"
    by (auto split: sum.splits)
  from Item_save_without_identity [OF a s, where ds = ds] p b ds a s show ?thesis
    by auto
qed

text \<open>
  With no identity configured, a save that has written the row still raises: once on a
  thumbnail with no file, when the first payload is built, and once on a boto3 client
  that cannot be created.
\<close>

theorem Item_save_without_identity_counterexample:
  "\<not> arn_set no_file_env \<and> \<not> arn_set no_region \<and>
   (\<exists>self' d'. Item_save no_file_env example_db example_item =
                  (Inl ValueError, self', d', [Persisted self', NotifyCalled, UsersQueried]) \<and>
               self' \<in> set (items d')) \<and>
   (\<exists>self' d'. Item_save no_region example_db example_item =
                  (Inl (ExternalError ''NoRegionError()''), self', d',
                   [Persisted self', NotifyCalled]) \<and>
               self' \<in> set (items d'))"
proof -
  have a: "\<not> arn_set no_file_env \<and> \<not> arn_set no_region" by code_simp
  obtain r1 s1 d1 evs1 where
    h1: "Item_save no_file_env example_db example_item = (r1, s1, d1, evs1)"
    by (metis prod_cases4)
  have "fst (Item_save no_file_env example_db example_item) = Inl ValueError \<and>
        snd (snd (snd (Item_save no_file_env example_db example_item))) =
          [Persisted (fst (snd (Item_save no_file_env example_db example_item))),
           NotifyCalled, UsersQueried] \<and>
        list_ex (\<lambda>r. r = fst (snd (Item_save no_file_env example_db example_item)))
          (items (fst (snd (snd (Item_save no_file_env example_db example_item)))))"
    by code_simp
  with h1 have c1: "Item_save no_file_env example_db example_item =
                      (Inl ValueError, s1, d1, [Persisted s1, NotifyCalled, UsersQueried]) \<and>
                    s1 \<in> set (items d1)"
    by (auto simp: list_ex_iff)
  obtain r2 s2 d2 evs2 where
    h2: "Item_save no_region example_db example_item = (r2, s2, d2, evs2)"
    by (metis prod_cases4)
  have "fst (Item_save no_region example_db example_item) = Inl (ExternalError ''NoRegionError()'') \<and>
        snd (snd (snd (Item_save no_region example_db example_item))) =
          [Persisted (fst (snd (Item_save no_region example_db example_item))), NotifyCalled] \<and>
        list_ex (\<lambda>r. r = fst (snd (Item_save no_region example_db example_item)))
          (items (fst (snd (snd (Item_save no_region example_db example_item)))))"
    by code_simp
  with h2 have c2: "Item_save no_region example_db example_item =
                      (Inl (ExternalError ''NoRegionError()''), s2, d2,
                       [Persisted s2, NotifyCalled]) \<and>
                    s2 \<in> set (items d2)"
    by (auto simp: list_ex_iff)
  from a c1 c2 show ?thesis by blast
qed

text \<open>
  C5. One call of \<open>increment_views\<close> on an Item whose \<open>views\<close> is 0 leaves the object
  with \<open>views\<close> 1. When the save it runs writes the row, that row is the object, it is in
  the store with \<open>views\<close> 1, and \<open>notify_registered_users\<close> is entered exactly once; it
  sends at most one request to the email service, none when no outbound identity is
  configured, and exactly one when an identity is configured and the call returns
  normally. Otherwise the image helper or the store raised: the call raises that
  exception, the store is as it was, and \<open>notify_registered_users\<close> is not entered.
\<close>

theorem increment_views_once:
  "views self = 0 \<Longrightarrow> increment_views e d self = (r, self', d', evs) \<Longrightarrow>
     views self' = 1 \<and>
     (Persisted row \<in> set evs \<longrightarrow>
        row = self' \<and> self' \<in> set (items d') \<and>
        length (filter (\<lambda>ev. ev = NotifyCalled) evs) = 1 \<and>
        length (filter is_ses_send evs) \<le> 1 \<and>
        (\<not> arn_set e \<longrightarrow> length (filter is_ses_send evs) = 0) \<and>
        (arn_set e \<and> r = Inr () \<longrightarrow> length (filter is_ses_send evs) = 1)) \<and>
     (Persisted self' \<in> set evs \<or>
      (evs = [] \<and> d' = d \<and>
       ((\<exists>x. resize_image e (item_image self) (Some THUMBNAIL_SUFFIX) = Inl x \<and> r = Inl x) \<or>
        (\<exists>thumb x. resize_image e (item_image self) (Some THUMBNAIL_SUFFIX) = Inr thumb \<and>
           Model_save_item d (prepared e (self\<lparr>views := 1\<rparr>) thumb) = Inl x \<and> r = Inl x))))"
proof -
  assume v: "views self = 0" and i: "increment_views e d self = (r, self', d', evs)"
  let ?s = "self\<lparr>views := views self + 1\<rparr>"
  from i have s: "Item_save e d ?s = (r, self', d', evs)"
    by (simp add: increment_views_def)
  from Item_save_cases [OF s] show ?thesis
  proof (elim disjE exE conjE)
    fix x
    assume "resize_image e (item_image ?s) (Some THUMBNAIL_SUFFIX) = Inl x"
      "r = Inl x" "self' = ?s" "d' = d" "evs = []"
    with v show ?thesis by simp
  next
    fix thumb x
    assume "resize_image e (item_image ?s) (Some THUMBNAIL_SUFFIX) = Inr thumb"
      "Model_save_item d (prepared e ?s thumb) = Inl x"
      "r = Inl x" "self' = prepared e ?s thumb" "d' = d" "evs = []"
    with v show ?thesis by (simp add: prepared_def)
  next
    fix thumb nevs
    assume m: "Model_save_item d (prepared e ?s thumb) = Inr (self', d')"
      and n: "notify_registered_users e d' self' = (r, nevs)"
      and evs: "evs = Persisted self' # nevs"
    from m v have v': "views self' = 1"
      by (auto simp: Model_save_item_def Let_def prepared_def split: if_splits option.splits)
    from notify_cases [OF n] evs v' Model_save_item_mem [OF m] show ?thesis
      by auto
  qed
qed

theorem increment_views_once_witness:
  "views example_item = 0 \<and>
   (\<exists>r self' d' evs.
      increment_views example_env example_db example_item = (r, self', d', evs) \<and>
      Persisted self' \<in> set evs \<and> views self' = 1 \<and> self' \<in> set (items d') \<and>
      length (filter (\<lambda>ev. ev = NotifyCalled) evs) = 1 \<and>
      length (filter is_ses_send evs) = 1) \<and>
   (\<exists>r self' d' evs.
      increment_views no_arn example_db example_item = (r, self', d', evs) \<and>
      Persisted self' \<in> set evs \<and> views self' = 1 \<and>
      length (filter (\<lambda>ev. ev = NotifyCalled) evs) = 1 \<and>
      length (filter is_ses_send evs) = 0)"
proof -
  have v: "views example_item = 0" by (simp add: example_item_def)
  obtain r1 s1 d1 evs1 where
    h1: "increment_views example_env example_db example_item = (r1, s1, d1, evs1)"
    by (metis prod_cases4)
  have "hd (snd (snd (snd (increment_views example_env example_db example_item)))) =
          Persisted (fst (snd (increment_views example_env example_db example_item))) \<and>
        snd (snd (snd (increment_views example_env example_db example_item))) \<noteq> [] \<and>
        fst (increment_views example_env example_db example_item) = Inr ()"
    by code_simp
  with h1 have p1: "Persisted s1 \<in> set evs1" and r1: "r1 = Inr ()"
    by (cases evs1; auto)+
  have a1: "arn_set example_env" by (simp add: arn_set_def example_env_def)
  obtain r2 s2 d2 evs2 where
    h2: "increment_views no_arn example_db example_item = (r2, s2, d2, evs2)"
    by (metis prod_cases4)
  have "hd (snd (snd (snd (increment_views no_arn example_db example_item)))) =
          Persisted (fst (snd (increment_views no_arn example_db example_item))) \<and>
        snd (snd (snd (increment_views no_arn example_db example_item))) \<noteq> []"
    by code_simp
  with h2 have p2: "Persisted s2 \<in> set evs2"
    by (cases evs2) auto
  have a2: "\<not> arn_set no_arn" by (simp add: arn_set_def no_arn_def)
  from increment_views_once [OF v h1, where row = s1] p1 r1 a1
       increment_views_once [OF v h2, where row = s2] p2 a2 v h1 h2
  show ?thesis by auto
qed

text \<open>
  Two calls of \<open>increment_views\<close> on an Item with \<open>views\<close> 0 that never enter
  \<open>notify_registered_users\<close> and leave the stored \<open>views\<close> at 0: one on an unsaved Item
  whose name is taken, one on the stored Item when its image cannot be read.
\<close>

theorem increment_views_once_counterexample:
  "views example_item = 0 \<and> views stored_item = 0 \<and> items taken_db = [stored_item] \<and>
   increment_views example_env taken_db example_item =
     (Inl IntegrityError,
      example_item\<lparr>views := 1, image_thumbnail := ''uploads/soup.png_resized.jpg'',
                    item_slug := ''tomato-soup''\<rparr>, taken_db, []) \<and>
   increment_views no_pillow taken_db stored_item =
     (Inl (ExternalError ''UnidentifiedImageError()''), stored_item\<lparr>views := 1\<rparr>, taken_db, []) \<and>
   length (filter (\<lambda>ev. ev = NotifyCalled) ([] :: event list)) = 0"
proof -
  have "views example_item = 0 \<and> views stored_item = 0 \<and> items taken_db = [stored_item]"
    by code_simp
  moreover have "increment_views example_env taken_db example_item =
     (Inl IntegrityError,
      example_item\<lparr>views := 1, image_thumbnail := ''uploads/soup.png_resized.jpg'',
                    item_slug := ''tomato-soup''\<rparr>, taken_db, [])"
    by code_simp
  moreover have "increment_views no_pillow taken_db stored_item =
     (Inl (ExternalError ''UnidentifiedImageError()''), stored_item\<lparr>views := 1\<rparr>, taken_db, [])"
    by code_simp
  ultimately show ?thesis by simp
qed

lemma write_category_mem: "self \<in> set (write_category rows self)"
  by (auto simp: write_category_def list_ex_iff)

lemma Model_save_category_mem:
  "Model_save_category d s = Inr (s', d') \<Longrightarrow> s' \<in> set (categories d')"
  by (auto simp: Model_save_category_def Let_def write_category_mem split: if_splits)

lemma Model_save_item_fields:
  "Model_save_item d s = Inr (s', d') \<Longrightarrow> s' = s\<lparr>item_id := item_id s'\<rparr>"
  by (auto simp: Model_save_item_def Let_def split: if_splits option.splits)

lemma Model_save_category_fields:
  "Model_save_category d s = Inr (s', d') \<Longrightarrow> s' = s\<lparr>category_id := category_id s'\<rparr>"
  by (auto simp: Model_save_category_def Let_def split: if_splits option.splits)

lemma Item_save_overwrites:
  "Item_save e d (self\<lparr>item_slug := s, image_thumbnail := t\<rparr>) =
     (case Item_save e d self of
        (r, self', d', evs) \<Rightarrow>
          (r, if evs = [] \<and> (\<exists>x. resize_image e (item_image self) (Some THUMBNAIL_SUFFIX) = Inl x)
              then self'\<lparr>item_slug := s, image_thumbnail := t\<rparr> else self', d', evs))"
  unfolding Item_save_def
  by (auto simp: Let_def split: sum.splits prod.splits)

text \<open>
  C7. Every row that \<open>Item.save\<close> writes is the object itself, is in the store, has
  the slug derived from the current name and the thumbnail that \<open>resize_image\<close> made of
  the current image with the thumbnail suffix; name and image are as the caller gave
  them. Whatever the caller had assigned to \<open>item_slug\<close> and \<open>image_thumbnail\<close> makes no
  difference to the outcome. A save that returns normally has written the row. The
  same holds for \<open>Category.save\<close> and \<open>category_slug\<close>.
\<close>

theorem save_rederives_slug_and_thumbnail:
  "(Item_save e d self = (r, self', d', evs) \<and> Persisted row \<in> set evs \<longrightarrow>
      row = self' \<and> self' \<in> set (items d') \<and>
      item_slug self' = slugify (nfkd e) (item_name self) \<and>
      resize_image e (item_image self) (Some THUMBNAIL_SUFFIX) = Inr (image_thumbnail self') \<and>
      item_name self' = item_name self \<and> item_image self' = item_image self \<and>
      (\<forall>s t. Item_save e d (self\<lparr>item_slug := s, image_thumbnail := t\<rparr>) = (r, self', d', evs))) \<and>
   (Item_save e d self = (Inr (), self', d', evs) \<longrightarrow> Persisted self' \<in> set evs) \<and>
   (Category_save e d c = (Inr (), c', dc, evc) \<longrightarrow>
      c' \<in> set (categories dc) \<and>
      category_slug c' = slugify (nfkd e) (category_name c) \<and>
      category_name c' = category_name c \<and>
      (\<forall>s. Category_save e d (c\<lparr>category_slug := s\<rparr>) = (Inr (), c', dc, evc)))"
proof (intro conjI impI)
  assume "Item_save e d self = (Inr (), self', d', evs)"
  from Item_save_cases [OF this] show "Persisted self' \<in> set evs" by auto
next
  assume c: "Category_save e d c = (Inr (), c', dc, evc)"
  then obtain img where
    r: "resize_image e (category_image c) None = Inr img" and
    m: "Model_save_category d
          (c\<lparr>category_image := img, category_slug := slugify (nfkd e) (category_name c)\<rparr>) =
        Inr (c', dc)" and evc: "evc = []"
    unfolding Category_save_def by (auto simp: Let_def split: sum.splits)
  from Model_save_category_mem [OF m] show "c' \<in> set (categories dc)" .
  from Model_save_category_fields [OF m]
  have f: "c' = c\<lparr>category_image := img, category_slug := slugify (nfkd e) (category_name c),
                  category_id := category_id c'\<rparr>" by simp
  show "category_slug c' = slugify (nfkd e) (category_name c)" by (subst f) simp
  show "category_name c' = category_name c" by (subst f) simp
  show "\<forall>s. Category_save e d (c\<lparr>category_slug := s\<rparr>) = (Inr (), c', dc, evc)"
    using r m evc unfolding Category_save_def by (simp add: Let_def)
next
  assume a: "Item_save e d self = (r, self', d', evs) \<and> Persisted row \<in> set evs"
  then have s: "Item_save e d self = (r, self', d', evs)" and p: "Persisted row \<in> set evs"
    by simp_all
  from Item_save_cases [OF s] p obtain thumb nevs where
    z: "resize_image e (item_image self) (Some THUMBNAIL_SUFFIX) = Inr thumb" and
    m: "Model_save_item d (prepared e self thumb) = Inr (self', d')" and
    n: "notify_registered_users e d' self' = (r, nevs)" and
    evs: "evs = Persisted self' # nevs"
    by auto
  from notify_cases [OF n] have "Persisted row \<notin> set nevs" by auto
  with p evs show "row = self'" by simp
  from Model_save_item_mem [OF m] show "self' \<in> set (items d')" .
  from Model_save_item_fields [OF m]
  have f: "self' = self\<lparr>image_thumbnail := thumb, item_slug := slugify (nfkd e) (item_name self),
                        item_id := item_id self'\<rparr>"
    by (simp add: prepared_def)
  show "item_slug self' = slugify (nfkd e) (item_name self)" by (subst f) simp
  have "image_thumbnail self' = thumb" by (subst f) simp
  with z show "resize_image e (item_image self) (Some THUMBNAIL_SUFFIX) = Inr (image_thumbnail self')"
    by simp
  show "item_name self' = item_name self" by (subst f) simp
  show "item_image self' = item_image self" by (subst f) simp
  show "\<forall>s t. Item_save e d (self\<lparr>item_slug := s, image_thumbnail := t\<rparr>) = (r, self', d', evs)"
    using s z by (simp add: Item_save_overwrites)
qed


theorem save_rederives_slug_and_thumbnail_witness:
  "(\<exists>r self' d' evs.
      Item_save example_env example_db handmade_item = (r, self', d', evs) \<and>
      Persisted self' \<in> set evs \<and> self' \<in> set (items d') \<and>
      item_slug self' = ''tomato-soup'' \<and>
      image_thumbnail self' = ''uploads/soup.png_resized.jpg'' \<and>
      Item_save example_env example_db example_item = (r, self', d', evs)) \<and>
   (\<exists>c' dc evc.
      Category_save example_env example_db example_category = (Inr (), c', dc, evc) \<and>
      c' \<in> set (categories dc) \<and> category_slug c' = ''main-dishes'')"
proof -
  obtain r self' d' evs where
    s: "Item_save example_env example_db handmade_item = (r, self', d', evs)"
    by (metis prod_cases4)
  have "hd (snd (snd (snd (Item_save example_env example_db handmade_item)))) =
          Persisted (fst (snd (Item_save example_env example_db handmade_item))) \<and>
        snd (snd (snd (Item_save example_env example_db handmade_item))) \<noteq> []"
    by code_simp
  with s have p: "Persisted self' \<in> set evs"
    by (cases evs) auto
  have g: "slugify (nfkd example_env) (item_name handmade_item) = ''tomato-soup''"
    by code_simp
  have z: "resize_image example_env (item_image handmade_item) (Some THUMBNAIL_SUFFIX) =
             Inr ''uploads/soup.png_resized.jpg''"
    by code_simp
  have o: "handmade_item\<lparr>item_slug := item_slug example_item,
             image_thumbnail := image_thumbnail example_item\<rparr> = example_item"
    by (simp add: handmade_item_def example_item_def)
  obtain rc c' dc evc where
    c: "Category_save example_env example_db example_category = (rc, c', dc, evc)"
    by (metis prod_cases4)
  have "fst (Category_save example_env example_db example_category) = Inr ()"
    by code_simp
  with c have rc: "rc = Inr ()" by simp
  have gc: "slugify (nfkd example_env) (category_name example_category) = ''main-dishes''"
    by code_simp
  note t = save_rederives_slug_and_thumbnail
         [of example_env example_db handmade_item r self' d' evs self'
             example_category c' dc evc]
  from t s p have
    "Item_save example_env example_db
       (handmade_item\<lparr>item_slug := item_slug example_item,
          image_thumbnail := image_thumbnail example_item\<rparr>) = (r, self', d', evs)"
    by blast
  with o have e: "Item_save example_env example_db example_item = (r, self', d', evs)"
    by simp
  from t s p g z c rc gc e show ?thesis by auto
qed

text \<open>
  C9. \<open>notify_registered_users\<close> queries all users and builds every payload before it
  looks at \<open>SES_IDENTITY_ARN\<close>: once the client is built the users are queried; an
  exception from a payload is the outcome of the call, with nothing logged; and when
  the call returns normally there was one payload for each user. None of this depends
  on the identity, so it holds when notifications are disabled too. Hence such an
  exception is also the outcome of the \<open>Item.save\<close> that wrote the row, which stays in
  the store. A thumbnail with no file is such a case, as soon as there is one user.
\<close>

theorem payloads_are_built_before_the_identity_test:
  "(boto3_client e = None \<and> notify_registered_users e d self = (r, evs) \<longrightarrow>
      UsersQueried \<in> set evs \<and>
      (\<forall>x. destinations e d self (users d) = Inl x \<longrightarrow>
           r = Inl x \<and> evs = [NotifyCalled, UsersQueried]) \<and>
      (r = Inr () \<longrightarrow>
         (\<exists>ds. destinations e d self (users d) = Inr ds \<and> length ds = length (users d)))) \<and>
   (Item_save e d0 self0 = (r', self, d, evs') \<and> Persisted self \<in> set evs' \<and>
    boto3_client e = None \<and> destinations e d self (users d) = Inl x \<longrightarrow>
      r' = Inl x \<and> self \<in> set (items d) \<and>
      evs' = [Persisted self, NotifyCalled, UsersQueried]) \<and>
   (image_thumbnail self = [] \<and> users d \<noteq> [] \<and> category_exists d (category_name_id self) \<longrightarrow>
      destinations e d self (users d) = Inl ValueError)"
proof (intro conjI impI)
  assume a: "boto3_client e = None \<and> notify_registered_users e d self = (r, evs)"
  then have b: "boto3_client e = None" and n: "notify_registered_users e d self = (r, evs)"
    by simp_all
  from notify_cases [OF n] b show "UsersQueried \<in> set evs" by auto
  from notify_cases [OF n] b
  show "\<forall>x. destinations e d self (users d) = Inl x \<longrightarrow>
          r = Inl x \<and> evs = [NotifyCalled, UsersQueried]"
    by auto
  assume "r = Inr ()"
  with notify_cases [OF n] b
  show "\<exists>ds. destinations e d self (users d) = Inr ds \<and> length ds = length (users d)"
    by (auto dest: destinations_length)
next
  assume a: "Item_save e d0 self0 = (r', self, d, evs') \<and> Persisted self \<in> set evs' \<and>
             boto3_client e = None \<and> destinations e d self (users d) = Inl x"
  then have s: "Item_save e d0 self0 = (r', self, d, evs')" and p: "Persisted self \<in> set evs'"
    and b: "boto3_client e = None" and x: "destinations e d self (users d) = Inl x"
    by simp_all
  from Item_save_cases [OF s] p obtain thumb nevs where
    m: "Model_save_item d0 (prepared e self0 thumb) = Inr (self, d)" and
    n: "notify_registered_users e d self = (r', nevs)" and
    evs: "evs' = Persisted self # nevs"
    by auto
  from notify_cases [OF n] b x have "r' = Inl x \<and> nevs = [NotifyCalled, UsersQueried]"
    by auto
  with evs Model_save_item_mem [OF m]
  show "r' = Inl x" "self \<in> set (items d)" "evs' = [Persisted self, NotifyCalled, UsersQueried]"
    by simp_all
next
  assume a: "image_thumbnail self = [] \<and> users d \<noteq> [] \<and> category_exists d (category_name_id self)"
  then obtain u us where u: "users d = u # us" by (cases "users d") auto
  from a related_category_exists obtain c where "related_category d self = Inr c" by blast
  with a have "template_data e d self u = Inl ValueError"
    by (simp add: template_data_no_file)
  with u show "destinations e d self (users d) = Inl ValueError" by simp
qed

theorem payloads_are_built_before_the_identity_test_witness:
  "\<not> arn_set no_arn \<and> \<not> arn_set no_file_env \<and>
   notify_registered_users no_arn example_db example_item =
     (Inl ValueError, [NotifyCalled, UsersQueried]) \<and>
   (\<exists>self d. Item_save no_file_env example_db example_item =
      (Inl ValueError, self, d, [Persisted self, NotifyCalled, UsersQueried]) \<and>
      self \<in> set (items d) \<and> image_thumbnail self = []) \<and>
   (\<exists>ds. notify_registered_users no_arn example_db
            (example_item\<lparr>image_thumbnail := ''uploads/soup_resized.jpg''\<rparr>) =
      (Inr (), [NotifyCalled, UsersQueried,
         LogInfo ''SES_IDENTITY_ARN not set, therefore email notifications are disabled.'']) \<and>
      destinations no_arn example_db
        (example_item\<lparr>image_thumbnail := ''uploads/soup_resized.jpg''\<rparr>) (users example_db) =
        Inr ds \<and> length ds = length (users example_db))"
proof -
  have a: "\<not> arn_set no_arn" "\<not> arn_set no_file_env"
    by (simp_all add: arn_set_def no_arn_def no_file_env_def)
  have b: "boto3_client no_arn = None" "boto3_client no_file_env = None"
    by (simp_all add: no_arn_def no_file_env_def example_env_def)
  have t: "image_thumbnail example_item = [] \<and> users example_db \<noteq> [] \<and>
           category_exists example_db (category_name_id example_item)"
    by code_simp
  obtain r1 evs1 where
    n1: "notify_registered_users no_arn example_db example_item = (r1, evs1)"
    by (metis surj_pair)
  note t1 = payloads_are_built_before_the_identity_test
    [of no_arn example_db example_item r1 evs1]
  from t1 t have x1: "destinations no_arn example_db example_item (users example_db) = Inl ValueError"
    by blast
  from t1 b n1 x1 have c1: "r1 = Inl ValueError \<and> evs1 = [NotifyCalled, UsersQueried]"
    by blast
  obtain r2 s2 d2 evs2 where
    s2: "Item_save no_file_env example_db example_item = (r2, s2, d2, evs2)"
    by (metis prod_cases4)
  have "hd (snd (snd (snd (Item_save no_file_env example_db example_item)))) =
          Persisted (fst (snd (Item_save no_file_env example_db example_item))) \<and>
        snd (snd (snd (Item_save no_file_env example_db example_item))) \<noteq> [] \<and>
        image_thumbnail (fst (snd (Item_save no_file_env example_db example_item))) = [] \<and>
        users (fst (snd (snd (Item_save no_file_env example_db example_item)))) \<noteq> [] \<and>
        category_exists (fst (snd (snd (Item_save no_file_env example_db example_item))))
          (category_name_id (fst (snd (Item_save no_file_env example_db example_item))))"
    by code_simp
  with s2 have p2: "Persisted s2 \<in> set evs2" and
    t2: "image_thumbnail s2 = [] \<and> users d2 \<noteq> [] \<and> category_exists d2 (category_name_id s2)"
    by (cases evs2; auto)+
  note u2 = payloads_are_built_before_the_identity_test
    [of no_file_env d2 s2 r2 evs2 example_db example_item r2 evs2 ValueError]
  from u2 t2 have x2: "destinations no_file_env d2 s2 (users d2) = Inl ValueError"
    by blast
  from u2 s2 p2 b x2
  have c2: "r2 = Inl ValueError \<and> s2 \<in> set (items d2) \<and>
            evs2 = [Persisted s2, NotifyCalled, UsersQueried]"
    by blast
  let ?ok = "example_item\<lparr>image_thumbnail := ''uploads/soup_resized.jpg''\<rparr>"
  obtain r3 evs3 where n3: "notify_registered_users no_arn example_db ?ok = (r3, evs3)"
    by (metis surj_pair)
  have "notify_registered_users no_arn example_db ?ok =
     (Inr (), [NotifyCalled, UsersQueried,
         LogInfo ''SES_IDENTITY_ARN not set, therefore email notifications are disabled.''])"
    by code_simp
  with n3 have r3: "r3 = Inr ()" and e3: "evs3 = [NotifyCalled, UsersQueried,
         LogInfo ''SES_IDENTITY_ARN not set, therefore email notifications are disabled.'']"
    by simp_all
  from payloads_are_built_before_the_identity_test [of no_arn example_db ?ok r3 evs3] b n3 r3
  obtain ds where c3: "destinations no_arn example_db ?ok (users example_db) = Inr ds \<and>
     length ds = length (users example_db)"
    by blast
  from a n1 c1 s2 c2 t2 n3 r3 e3 c3 show ?thesis by auto
qed

lemma category_exists_after_delete:
  "category_exists
     (d\<lparr>items := its, categories := filter (\<lambda>c. category_id c \<noteq> Some cid) (categories d)\<rparr>) k =
   (category_exists d k \<and> k \<noteq> cid)"
  by (auto simp: category_exists_def list_ex_iff)

text \<open>
  C8. Deleting a Category leaves every Item in the store, in its place: the Items of
  the new store are those of the old one, each with all its fields as they were, but
  for the Items that referred to the deleted Category, whose reference is now the
  default Category, number 1. The Category itself is gone and the users are as they
  were. In a store whose references are sound and that holds the default Category,
  deleting any other Category succeeds.
\<close>

theorem Model_delete_category_sets_default:
  "(Model_delete_category d cid = Inr d' \<longrightarrow>
      items d' = map (\<lambda>r. if category_name_id r = cid then r\<lparr>category_name_id := 1\<rparr> else r)
                   (items d) \<and>
      map item_id (items d') = map item_id (items d) \<and>
      users d' = users d \<and> \<not> category_exists d' cid \<and>
      (r \<in> set (items d) \<and> category_name_id r = cid \<longrightarrow>
         r\<lparr>category_name_id := 1\<rparr> \<in> set (items d')) \<and>
      (r \<in> set (items d) \<and> category_name_id r \<noteq> cid \<longrightarrow> r \<in> set (items d'))) \<and>
   (category_exists d 1 \<and> cid \<noteq> 1 \<and>
    list_all (\<lambda>r. category_exists d (category_name_id r)) (items d) \<longrightarrow>
      (\<exists>d'. Model_delete_category d cid = Inr d'))"
proof (intro conjI impI)
  assume "Model_delete_category d cid = Inr d'"
  then have d': "d' = d\<lparr>items := map (set_default cid) (items d),
                        categories := filter (\<lambda>c. category_id c \<noteq> Some cid) (categories d)\<rparr>"
    by (auto simp: Model_delete_category_def Let_def split: if_splits)
  have sd: "set_default cid = (\<lambda>r. if category_name_id r = cid then r\<lparr>category_name_id := 1\<rparr> else r)"
    by (auto simp: set_default_def DEFAULT_CATEGORY_def)
  from d' sd show i: "items d' =
      map (\<lambda>r. if category_name_id r = cid then r\<lparr>category_name_id := 1\<rparr> else r) (items d)"
    by simp
  from i show "map item_id (items d') = map item_id (items d)"
    by (simp add: comp_def if_distrib cong: if_cong)
  from d' show "users d' = users d" by simp
  from d' show "\<not> category_exists d' cid"
    by (simp add: category_exists_after_delete)
  {
    assume "r \<in> set (items d) \<and> category_name_id r = cid"
    with i show "r\<lparr>category_name_id := 1\<rparr> \<in> set (items d')" by force
  }
  {
    assume "r \<in> set (items d) \<and> category_name_id r \<noteq> cid"
    with i show "r \<in> set (items d')" by force
  }
next
  assume a: "category_exists d 1 \<and> cid \<noteq> 1 \<and>
             list_all (\<lambda>r. category_exists d (category_name_id r)) (items d)"
  then show "\<exists>d'. Model_delete_category d cid = Inr d'"
    by (auto simp: Model_delete_category_def Let_def category_exists_after_delete list_all_iff
          set_default_def DEFAULT_CATEGORY_def)
qed

theorem Model_delete_category_sets_default_witness:
  "category_exists shelf_db 1 \<and> (2::nat) \<noteq> 1 \<and>
   list_all (\<lambda>r. category_exists shelf_db (category_name_id r)) (items shelf_db) \<and>
   (\<exists>d'. Model_delete_category shelf_db 2 = Inr d' \<and>
      items d' =
        [example_item\<lparr>item_id := Some 1, item_slug := ''tomato-soup''\<rparr>,
         example_item\<lparr>item_id := Some 2, item_name := ''Lemon Cake'', item_slug := ''lemon-cake'',
                        category_name_id := 1, views := 5\<rparr>] \<and>
      \<not> category_exists d' 2)"
proof -
  have a: "category_exists shelf_db 1 \<and> (2::nat) \<noteq> 1 \<and>
           list_all (\<lambda>r. category_exists shelf_db (category_name_id r)) (items shelf_db)"
    by code_simp
  let ?cake = "example_item\<lparr>item_id := Some 2, item_name := ''Lemon Cake'',
                 item_slug := ''lemon-cake'', category_name_id := 2, views := 5\<rparr>"
  note t = Model_delete_category_sets_default [of shelf_db 2 _ ?cake]
  from t a obtain d' where d: "Model_delete_category shelf_db 2 = Inr d'"
    by blast
  from t [of d'] d have
    "items d' = map (\<lambda>r. if category_name_id r = 2 then r\<lparr>category_name_id := 1\<rparr> else r)
                  (items shelf_db)" and n: "\<not> category_exists d' 2"
    by blast+
  then have "items d' =
        [example_item\<lparr>item_id := Some 1, item_slug := ''tomato-soup''\<rparr>,
         example_item\<lparr>item_id := Some 2, item_name := ''Lemon Cake'', item_slug := ''lemon-cake'',
                        category_name_id := 1, views := 5\<rparr>]"
    by (simp add: shelf_db_def example_item_def)
  with a d n show ?thesis by blast
qed

subsection \<open>The shape of a slug\<close>

lemma of_char_hyphen: "(of_char CHR ''-'' :: nat) = 45"
  by simp

lemma of_char_underscore: "(of_char CHR ''_'' :: nat) = 95"
  by simp

lemma slug_char_facts:
  "is_slug_char c \<Longrightarrow>
     is_ascii c \<and> \<not> is_upper c \<and> \<not> is_space c \<and> (is_word c \<or> c = CHR ''-'') \<and>
     (is_sep c \<longleftrightarrow> c = CHR ''-'')"
  unfolding is_slug_char_def is_ascii_def is_upper_def is_space_def is_word_def is_sep_def
    is_lower_def is_digit_def Let_def
  by (auto simp: of_char_hyphen of_char_underscore)

lemma lower_char_not_upper: "\<not> is_upper (lower_char c)"
proof (cases "is_upper c")
  case True
  then have "65 \<le> (of_char c :: nat) \<and> (of_char c :: nat) \<le> 90"
    by (simp add: is_upper_def Let_def)
  then have "(of_char (char_of ((of_char c :: nat) + 32)) :: nat) = of_char c + 32"
    by (simp add: of_char_of)
  with True \<open>65 \<le> (of_char c :: nat) \<and> (of_char c :: nat) \<le> 90\<close> show ?thesis
    by (simp add: lower_char_def is_upper_def Let_def)
next
  case False
  then show ?thesis by (simp add: lower_char_def)
qed

lemma kept_char:
  "\<not> is_upper c \<Longrightarrow> is_word c \<or> is_space c \<or> c = CHR ''-'' \<Longrightarrow> is_slug_char c \<or> is_space c"
  by (auto simp: is_slug_char_def is_word_def)

lemma kept_chars:
  "list_all (\<lambda>c. is_slug_char c \<or> is_space c)
     (filter (\<lambda>c. is_word c \<or> is_space c \<or> c = CHR ''-'') (map lower_char v))"
  by (induction v) (auto simp: lower_char_not_upper kept_char)

lemma collapse_chars:
  "list_all (\<lambda>c. is_slug_char c \<or> is_space c) v \<Longrightarrow> list_all is_slug_char (collapse b v)"
  by (induction v arbitrary: b) (auto simp: is_sep_def is_slug_char_def)

lemma no_double_hyphen_Cons:
  "no_double_hyphen (a # ys) =
     ((ys \<noteq> [] \<longrightarrow> \<not> (a = CHR ''-'' \<and> hd ys = CHR ''-'')) \<and> no_double_hyphen ys)"
  by (cases ys) auto

lemma collapse_True_hd: "collapse True v \<noteq> [] \<Longrightarrow> hd (collapse True v) \<noteq> CHR ''-''"
  by (induction v) (auto simp: is_sep_def split: if_splits)

lemma collapse_no_double_hyphen: "no_double_hyphen (collapse b v)"
proof (induction v arbitrary: b)
  case Nil
  show ?case by simp
next
  case (Cons c cs)
  show ?case
  proof (cases "is_sep c")
    case True
    then show ?thesis
      using Cons [of True] collapse_True_hd [of cs] by (simp add: no_double_hyphen_Cons)
  next
    case False
    then have "c \<noteq> CHR ''-''" by (auto simp: is_sep_def)
    with False show ?thesis using Cons [of False] by (simp add: no_double_hyphen_Cons)
  qed
qed

lemma no_double_hyphen_append:
  "no_double_hyphen (xs @ ys) \<Longrightarrow> no_double_hyphen xs \<and> no_double_hyphen ys"
proof (induction xs)
  case Nil
  then show ?case by simp
next
  case (Cons a xs)
  then show ?case by (cases xs) (auto simp: no_double_hyphen_Cons)
qed

lemma strip_chars_middle:
  "\<exists>a b. s = a @ strip_chars chars s @ b"
proof -
  let ?P = "\<lambda>c. c \<in> set chars"
  let ?t = "dropWhile ?P s"
  have "s = takeWhile ?P s @ ?t" by simp
  moreover have "rev ?t = takeWhile ?P (rev ?t) @ dropWhile ?P (rev ?t)" by simp
  then have "?t = rev (dropWhile ?P (rev ?t)) @ rev (takeWhile ?P (rev ?t))"
    by (metis rev_append rev_rev_ident)
  ultimately have "s = takeWhile ?P s @ strip_chars chars s @ rev (takeWhile ?P (rev ?t))"
    by (simp add: strip_chars_def)
  then show ?thesis by blast
qed

lemma strip_chars_ends:
  "strip_chars chars s \<noteq> [] \<Longrightarrow>
     hd (strip_chars chars s) \<notin> set chars \<and> last (strip_chars chars s) \<notin> set chars"
proof -
  let ?P = "\<lambda>c. c \<in> set chars"
  let ?t = "dropWhile ?P s"
  let ?u = "dropWhile ?P (rev ?t)"
  assume n: "strip_chars chars s \<noteq> []"
  then have u: "?u \<noteq> []" by (simp add: strip_chars_def)
  then have "\<not> ?P (hd ?u)" by (rule hd_dropWhile)
  then have l: "last (strip_chars chars s) \<notin> set chars"
    using u by (simp add: strip_chars_def last_rev)
  have t: "?t \<noteq> []"
  proof
    assume "?t = []"
    then have "?u = []" by (metis dropWhile.simps(1) rev.simps(1))
    with u show False by blast
  qed
  then have ht: "\<not> ?P (hd ?t)" by (rule hd_dropWhile)
  have "rev ?t = takeWhile ?P (rev ?t) @ ?u" by simp
  then have "?t = rev ?u @ rev (takeWhile ?P (rev ?t))"
    by (metis rev_append rev_rev_ident)
  then have "hd ?t = hd (rev ?u)" using u by (metis hd_append2 rev_is_Nil_conv)
  with ht have "hd (strip_chars chars s) \<notin> set chars" by (simp add: strip_chars_def)
  with l show ?thesis by simp
qed

lemma strip_chars_id:
  "s = [] \<or> (hd s \<notin> set chars \<and> last s \<notin> set chars) \<Longrightarrow> strip_chars chars s = s"
proof (cases "s = []")
  case True
  then show ?thesis by (simp add: strip_chars_def)
next
  case False
  assume "s = [] \<or> (hd s \<notin> set chars \<and> last s \<notin> set chars)"
  with False have h: "hd s \<notin> set chars" and l: "last s \<notin> set chars" by auto
  from False h have a: "dropWhile (\<lambda>c. c \<in> set chars) s = s"
    by (cases s) auto
  from False l have "dropWhile (\<lambda>c. c \<in> set chars) (rev s) = rev s"
    by (cases "rev s") (auto simp: last_rev [symmetric] simp del: last_rev)
  with a show ?thesis by (simp add: strip_chars_def)
qed

lemma slugify_is_slug_shaped: "slug_shaped (slugify nf n)"
proof -
  let ?v2 = "filter (\<lambda>c. is_word c \<or> is_space c \<or> c = CHR ''-'')
               (map lower_char (filter is_ascii (nf n)))"
  let ?w = "collapse False ?v2"
  have s: "slugify nf n = strip_chars ''-_'' ?w" by (simp add: slugify_def Let_def)
  obtain a b where w: "?w = a @ strip_chars ''-_'' ?w @ b"
    using strip_chars_middle by blast
  have cw: "list_all is_slug_char ?w" by (rule collapse_chars) (rule kept_chars)
  have "list_all is_slug_char (a @ strip_chars ''-_'' ?w @ b)"
    by (subst w [symmetric]) (rule cw)
  then have c: "list_all is_slug_char (strip_chars ''-_'' ?w)" by simp
  have dw: "no_double_hyphen ?w" by (rule collapse_no_double_hyphen)
  have "no_double_hyphen (a @ strip_chars ''-_'' ?w @ b)"
    by (subst w [symmetric]) (rule dw)
  then have d: "no_double_hyphen (strip_chars ''-_'' ?w)"
    using no_double_hyphen_append by blast
  from c d strip_chars_ends [of "''-_''" ?w] show ?thesis
    unfolding s slug_shaped_def by blast
qed

lemma collapse_id:
  "list_all is_slug_char s \<Longrightarrow> no_double_hyphen s \<Longrightarrow> (b \<longrightarrow> s = [] \<or> hd s \<noteq> CHR ''-'') \<Longrightarrow>
     collapse b s = s"
proof (induction s arbitrary: b)
  case Nil
  show ?case by simp
next
  case (Cons c cs)
  from Cons.prems have sc: "is_sep c \<longleftrightarrow> c = CHR ''-''" and cs: "list_all is_slug_char cs"
    and nd: "no_double_hyphen cs"
    by (auto simp: slug_char_facts no_double_hyphen_Cons)
  show ?case
  proof (cases "c = CHR ''-''")
    case True
    with Cons.prems have nb: "\<not> b" and h: "cs = [] \<or> hd cs \<noteq> CHR ''-''"
      by (auto simp: no_double_hyphen_Cons)
    from Cons.IH [of True, OF cs nd] h have "collapse True cs = cs" by blast
    with True nb sc show ?thesis by simp
  next
    case False
    from Cons.IH [of False, OF cs nd] have "collapse False cs = cs" by simp
    with False sc show ?thesis by simp
  qed
qed

lemma slug_shaped_fixed:
  assumes k: "nfkd_keeps_ascii nf" and s: "slug_shaped s"
  shows "slugify nf s = s"
proof -
  from s have c: "list_all is_slug_char s" and nd: "no_double_hyphen s"
    and e: "s = [] \<or> (hd s \<notin> set ''-_'' \<and> last s \<notin> set ''-_'')"
    by (auto simp: slug_shaped_def)
  from c have a: "list_all is_ascii s"
    by (induction s) (auto simp: slug_char_facts)
  with k have n: "nf s = s" by (simp add: nfkd_keeps_ascii_def)
  from a have f1: "filter is_ascii s = s" by (induction s) auto
  from c have m: "map lower_char s = s"
    by (induction s) (auto simp: slug_char_facts lower_char_def)
  from c have f2: "filter (\<lambda>c. is_word c \<or> is_space c \<or> c = CHR ''-'') s = s"
    by (induction s) (auto dest: slug_char_facts)
  from c nd have cl: "collapse False s = s" by (simp add: collapse_id)
  from e have "strip_chars ''-_'' s = s" by (rule strip_chars_id)
  with n f1 m f2 cl show ?thesis by (simp add: slugify_def Let_def)
qed

lemma Item_save_name:
  "Item_save e d self = (r, self', d', evs) \<Longrightarrow>
     item_name self' = item_name self \<and>
     (item_slug self' = item_slug self \<or> item_slug self' = slugify (nfkd e) (item_name self))"
proof -
  assume a: "Item_save e d self = (r, self', d', evs)"
  have p: "\<And>t. item_name (prepared e self t) = item_name self \<and>
                item_slug (prepared e self t) = slugify (nfkd e) (item_name self)"
    by (simp add: prepared_def)
  from Item_save_cases [OF a] show ?thesis
  proof (elim disjE exE conjE)
    fix x assume "self' = self"
    then show ?thesis by simp
  next
    fix thumb x assume "self' = prepared e self thumb"
    with p show ?thesis by simp
  next
    fix thumb nevs assume "Model_save_item d (prepared e self thumb) = Inr (self', d')"
    then have f: "self' = (prepared e self thumb)\<lparr>item_id := item_id self'\<rparr>"
      by (rule Model_save_item_fields)
    have "item_name self' = item_name ((prepared e self thumb)\<lparr>item_id := item_id self'\<rparr>)"
      by (rule arg_cong [OF f])
    moreover
    have "item_slug self' = item_slug ((prepared e self thumb)\<lparr>item_id := item_id self'\<rparr>)"
      by (rule arg_cong [OF f])
    ultimately show ?thesis using p [of thumb] by simp
  qed
qed


lemma slugify_after_nfkd: "slugify nf v = slugify (\<lambda>s. s) (nf v)"
  by (simp add: slugify_def)

lemma slugify_tomato_soup:
  "nfkd_keeps_ascii nf \<Longrightarrow> slugify nf ''Tomato Soup'' = ''tomato-soup''"
proof -
  assume k: "nfkd_keeps_ascii nf"
  have "list_all is_ascii ''Tomato Soup''" by code_simp
  with k have "nf ''Tomato Soup'' = ''Tomato Soup''" by (simp only: nfkd_keeps_ascii_def)
  moreover have "slugify (\<lambda>s. s) ''Tomato Soup'' = ''tomato-soup''" by code_simp
  ultimately show ?thesis by (simp only: slugify_after_nfkd [of nf])
qed

lemma Item_save_returns_slug:
  "Item_save e d self = (Inr (), self', d', evs) \<Longrightarrow>
     item_slug self' = slugify (nfkd e) (item_name self)"
proof -
  assume a: "Item_save e d self = (Inr (), self', d', evs)"
  from Item_save_cases [OF a] obtain thumb where
    m: "Model_save_item d (prepared e self thumb) = Inr (self', d')"
    by auto
  then have f: "self' = (prepared e self thumb)\<lparr>item_id := item_id self'\<rparr>"
    by (rule Model_save_item_fields)
  have "item_slug self' = item_slug ((prepared e self thumb)\<lparr>item_id := item_id self'\<rparr>)"
    by (rule arg_cong [OF f])
  then show ?thesis by (simp add: prepared_def)
qed

lemma Category_save_returns_slug:
  "Category_save e d c = (Inr (), c', d', evs) \<Longrightarrow>
     category_slug c' = slugify (nfkd e) (category_name c)"
proof -
  assume a: "Category_save e d c = (Inr (), c', d', evs)"
  then obtain img where
    m: "Model_save_category d
          (c\<lparr>category_image := img, category_slug := slugify (nfkd e) (category_name c)\<rparr>) =
        Inr (c', d')"
    unfolding Category_save_def by (auto simp: Let_def split: sum.splits prod.splits)
  then have f: "c' = (c\<lparr>category_image := img,
                        category_slug := slugify (nfkd e) (category_name c)\<rparr>)
                      \<lparr>category_id := category_id c'\<rparr>"
    by (rule Model_save_category_fields)
  have "category_slug c' =
        category_slug ((c\<lparr>category_image := img,
                          category_slug := slugify (nfkd e) (category_name c)\<rparr>)
                        \<lparr>category_id := category_id c'\<rparr>)"
    by (rule arg_cong [OF f])
  then show ?thesis by simp
qed

text \<open>
  C6. The slug that a save stores is \<open>slugify\<close> of the name, a function of the name
  alone. It is slug-shaped: lowercase letters, digits, underscores and single hyphens,
  with neither a hyphen nor an underscore at either end. A slug-shaped string is its
  own slug, so deriving the slug of a slug changes nothing. The name "Tomato Soup"
  has the slug "tomato-soup": a save of an Item of that name that returns normally
  stores it, and so does any later save of the saved object.
\<close>

theorem slug_is_lowercase_hyphenated_and_idempotent:
  "nfkd_keeps_ascii (nfkd e) \<Longrightarrow>
     slug_shaped (slugify (nfkd e) n) \<and>
     (slug_shaped s \<longrightarrow> slugify (nfkd e) s = s) \<and>
     slugify (nfkd e) (slugify (nfkd e) n) = slugify (nfkd e) n \<and>
     slugify (nfkd e) ''Tomato Soup'' = ''tomato-soup'' \<and>
     (Item_save e d self = (Inr (), self', d', evs) \<longrightarrow>
        item_slug self' = slugify (nfkd e) (item_name self) \<and>
        (item_name self = ''Tomato Soup'' \<longrightarrow>
           item_slug self' = ''tomato-soup'' \<and>
           (Item_save e d' self' = (r2, self2, d2, evs2) \<longrightarrow> item_slug self2 = ''tomato-soup''))) \<and>
     (Category_save e d c = (Inr (), c', d', evs) \<longrightarrow>
        category_slug c' = slugify (nfkd e) (category_name c))"
proof -
  assume k: "nfkd_keeps_ascii (nfkd e)"
  have sh: "slug_shaped (slugify (nfkd e) n)" by (rule slugify_is_slug_shaped)
  have fx: "\<And>t. slug_shaped t \<Longrightarrow> slugify (nfkd e) t = t"
    using k by (rule slug_shaped_fixed)
  from sh have idem: "slugify (nfkd e) (slugify (nfkd e) n) = slugify (nfkd e) n" by (rule fx)
  from k have ts: "slugify (nfkd e) ''Tomato Soup'' = ''tomato-soup''"
    by (rule slugify_tomato_soup)
  have it: "item_slug self' = slugify (nfkd e) (item_name self) \<and>
        (item_name self = ''Tomato Soup'' \<longrightarrow>
           item_slug self' = ''tomato-soup'' \<and>
           (Item_save e d' self' = (r2, self2, d2, evs2) \<longrightarrow> item_slug self2 = ''tomato-soup''))"
    if a: "Item_save e d self = (Inr (), self', d', evs)"
  proof (intro conjI impI)
    from a show s1: "item_slug self' = slugify (nfkd e) (item_name self)"
      by (rule Item_save_returns_slug)
    assume nm: "item_name self = ''Tomato Soup''"
    with s1 ts show s2: "item_slug self' = ''tomato-soup''" by simp
    from Item_save_name [OF a] nm have n2: "item_name self' = ''Tomato Soup''" by simp
    assume b: "Item_save e d' self' = (r2, self2, d2, evs2)"
    from Item_save_name [OF b] n2 s2 ts show "item_slug self2 = ''tomato-soup''" by auto
  qed
  have ct: "category_slug c' = slugify (nfkd e) (category_name c)"
    if "Category_save e d c = (Inr (), c', d', evs)"
    using that by (rule Category_save_returns_slug)
  from sh fx idem ts it ct show ?thesis by blast
qed

theorem slug_is_lowercase_hyphenated_and_idempotent_witness:
  "nfkd_keeps_ascii (nfkd example_env) \<and>
   slugify (nfkd example_env) ''  Fish & Chips -- No_2 '' = ''fish-chips-no_2'' \<and>
   slug_shaped ''fish-chips-no_2'' \<and>
   slugify (nfkd example_env) ''fish-chips-no_2'' = ''fish-chips-no_2'' \<and>
   item_name example_item = ''Tomato Soup'' \<and>
   (\<exists>self' d' evs r2 self2 d2 evs2.
      Item_save example_env example_db example_item = (Inr (), self', d', evs) \<and>
      item_slug self' = ''tomato-soup'' \<and>
      Item_save example_env d' self' = (r2, self2, d2, evs2) \<and>
      item_slug self2 = ''tomato-soup'')"
proof -
  have k: "nfkd_keeps_ascii (nfkd example_env)"
    by (simp add: nfkd_keeps_ascii_def example_env_def)
  have v: "slugify (nfkd example_env) ''  Fish & Chips -- No_2 '' = ''fish-chips-no_2''"
    by code_simp
  have sh: "slug_shaped ''fish-chips-no_2''" by code_simp
  have nm: "item_name example_item = ''Tomato Soup''" by code_simp
  obtain r self' d' evs where
    h: "Item_save example_env example_db example_item = (r, self', d', evs)"
    by (metis prod_cases4)
  have "fst (Item_save example_env example_db example_item) = Inr ()" by code_simp
  with h have h1: "Item_save example_env example_db example_item = (Inr (), self', d', evs)"
    by simp
  obtain r2 self2 d2 evs2 where
    h2: "Item_save example_env d' self' = (r2, self2, d2, evs2)"
    by (metis prod_cases4)
  note t = slug_is_lowercase_hyphenated_and_idempotent
    [OF k, of "''  Fish & Chips -- No_2 ''" "''fish-chips-no_2''" example_db example_item
       self' d' evs r2 self2 d2 evs2]
  from t sh have f: "slugify (nfkd example_env) ''fish-chips-no_2'' = ''fish-chips-no_2''"
    by blast
  from t h1 nm h2 have "item_slug self' = ''tomato-soup'' \<and> item_slug self2 = ''tomato-soup''"
    by blast
  with k v sh f nm h1 h2 show ?thesis by blast
qed

lemma no_double_hyphen_replicate:
  "c \<noteq> CHR ''-'' \<Longrightarrow> no_double_hyphen (replicate k c)"
  by (induction k) (auto simp: no_double_hyphen_Cons)

lemma slug_shaped_replicate_a: "slug_shaped (replicate k CHR ''a'')"
proof -
  have "is_slug_char CHR ''a''" by code_simp
  then have "list_all is_slug_char (replicate k CHR ''a'')"
    by (simp add: list_all_iff)
  moreover have "no_double_hyphen (replicate k CHR ''a'')"
    by (rule no_double_hyphen_replicate) simp
  moreover have "k \<noteq> 0 \<Longrightarrow> hd (replicate k CHR ''a'') = CHR ''a'' \<and>
                          last (replicate k CHR ''a'') = CHR ''a''"
    by (cases k) (auto simp: last_replicate)
  ultimately show ?thesis
    by (cases "k = 0") (auto simp: slug_shaped_def)
qed

lemma str_len_replicate_a: "str_len (replicate k CHR ''a'') = k"
proof -
  have "\<not> is_continuation CHR ''a''" by code_simp
  then show ?thesis by (simp add: str_len_def)
qed

lemma Item_save_long_slug:
  assumes l: "SLUG_MAX_LENGTH < str_len (slugify (nfkd e) (item_name self))"
    and t: "resize_image e (item_image self) (Some THUMBNAIL_SUFFIX) = Inr thumb"
  shows "Item_save e d self = (Inl DataError, prepared e self thumb, d, [])"
proof -
  from l have "Model_save_item d (prepared e self thumb) = Inl DataError"
    by (simp add: Model_save_item_def prepared_def)
  with t show ?thesis
    by (simp add: Item_save_def prepared_def Let_def)
qed

lemma Category_save_long_slug:
  assumes l: "SLUG_MAX_LENGTH < str_len (slugify (nfkd e) (category_name c))"
    and t: "resize_image e (category_image c) None = Inr img"
  shows "Category_save e d c =
           (Inl DataError,
            c\<lparr>category_image := img, category_slug := slugify (nfkd e) (category_name c)\<rparr>, d, [])"
proof -
  from l have "Model_save_category d
      (c\<lparr>category_image := img, category_slug := slugify (nfkd e) (category_name c)\<rparr>) =
      Inl DataError"
    by (simp add: Model_save_category_def)
  with t show ?thesis
    by (simp add: Category_save_def Let_def)
qed

text \<open>
  C10. Names may have 200 characters, slugs 50. A name of \<open>k\<close> letters \<open>a\<close>, with
  \<open>50 < k \<le> 200\<close>, is within the limit of the name field and is its own slug, of
  \<open>k\<close> characters. Once the image is resized, saving an Item or a Category whose name
  has a slug of more than 50 characters raises \<open>DataError\<close>: the store is as it
  was, nothing is written and no notification is attempted.
\<close>

theorem long_name_overflows_slug_field:
  "nfkd_keeps_ascii (nfkd e) \<Longrightarrow> 50 < k \<Longrightarrow> k \<le> 200 \<Longrightarrow>
     NAME_MAX_LENGTH = 200 \<and> SLUG_MAX_LENGTH = 50 \<and>
     str_len (replicate k CHR ''a'') \<le> NAME_MAX_LENGTH \<and>
     slugify (nfkd e) (replicate k CHR ''a'') = replicate k CHR ''a'' \<and>
     SLUG_MAX_LENGTH < str_len (slugify (nfkd e) (replicate k CHR ''a'')) \<and>
     (SLUG_MAX_LENGTH < str_len (slugify (nfkd e) (item_name self)) \<and>
      resize_image e (item_image self) (Some THUMBNAIL_SUFFIX) = Inr thumb \<longrightarrow>
        Item_save e d self = (Inl DataError, prepared e self thumb, d, [])) \<and>
     (SLUG_MAX_LENGTH < str_len (slugify (nfkd e) (category_name c)) \<and>
      resize_image e (category_image c) None = Inr img \<longrightarrow>
        Category_save e d c =
          (Inl DataError,
           c\<lparr>category_image := img, category_slug := slugify (nfkd e) (category_name c)\<rparr>,
           d, []))"
proof -
  assume n: "nfkd_keeps_ascii (nfkd e)" and k: "50 < k" "k \<le> 200"
  have s: "slugify (nfkd e) (replicate k CHR ''a'') = replicate k CHR ''a''"
    using n slug_shaped_replicate_a by (rule slug_shaped_fixed)
  from k have "str_len (replicate k CHR ''a'') \<le> NAME_MAX_LENGTH"
    by (simp add: str_len_replicate_a NAME_MAX_LENGTH_def)
  moreover from k s have "SLUG_MAX_LENGTH < str_len (slugify (nfkd e) (replicate k CHR ''a''))"
    by (simp add: str_len_replicate_a SLUG_MAX_LENGTH_def)
  moreover have "NAME_MAX_LENGTH = 200" "SLUG_MAX_LENGTH = 50"
    by (simp_all add: NAME_MAX_LENGTH_def SLUG_MAX_LENGTH_def)
  ultimately show ?thesis
    using s Item_save_long_slug [of e self thumb d] Category_save_long_slug [of e c img d]
    by blast
qed

theorem long_name_overflows_slug_field_witness:
  "nfkd_keeps_ascii (nfkd example_env) \<and> (50::nat) < 51 \<and> (51::nat) \<le> 200 \<and>
   str_len (replicate 51 CHR ''a'') \<le> NAME_MAX_LENGTH \<and>
   SLUG_MAX_LENGTH < str_len (slugify (nfkd example_env) (replicate 51 CHR ''a'')) \<and>
   resize_image example_env (item_image example_item) (Some THUMBNAIL_SUFFIX) =
     Inr ''uploads/soup.png_resized.jpg'' \<and>
   Item_save example_env example_db (example_item\<lparr>item_name := replicate 51 CHR ''a''\<rparr>) =
     (Inl DataError,
      example_item\<lparr>item_name := replicate 51 CHR ''a'',
                    image_thumbnail := ''uploads/soup.png_resized.jpg'',
                    item_slug := replicate 51 CHR ''a''\<rparr>, example_db, []) \<and>
   (\<exists>c'. Category_save example_env example_db
           (example_category\<lparr>category_name := replicate 51 CHR ''a''\<rparr>) =
         (Inl DataError, c', example_db, []) \<and> category_slug c' = replicate 51 CHR ''a'')"
proof -
  let ?n = "replicate 51 CHR ''a''"
  let ?i = "example_item\<lparr>item_name := ?n\<rparr>"
  let ?c = "example_category\<lparr>category_name := ?n\<rparr>"
  have n: "nfkd_keeps_ascii (nfkd example_env)"
    by (simp add: nfkd_keeps_ascii_def example_env_def)
  have ri: "resize_image example_env (item_image ?i) (Some THUMBNAIL_SUFFIX) =
              Inr ''uploads/soup.png_resized.jpg''"
    by code_simp
  obtain img where rc: "resize_image example_env (category_image ?c) None = Inr img"
  proof -
    have "case resize_image example_env (category_image ?c) None of
            Inl x \<Rightarrow> False | Inr g \<Rightarrow> True"
      by code_simp
    then show ?thesis using that by (auto split: sum.splits)
  qed
  have k: "(50::nat) < 51" "(51::nat) \<le> 200" by simp_all
  note t = long_name_overflows_slug_field
    [where e = example_env and k = 51 and self = ?i
       and thumb = "''uploads/soup.png_resized.jpg''" and d = example_db and c = ?c
       and img = img, OF n k]
  from t have a: "str_len ?n \<le> NAME_MAX_LENGTH" by blast
  from t have s: "slugify (nfkd example_env) ?n = ?n" by blast
  from t have b: "SLUG_MAX_LENGTH < str_len (slugify (nfkd example_env) ?n)" by blast
  have in_: "item_name ?i = ?n" and cn: "category_name ?c = ?n" by simp_all
  from b have bi: "SLUG_MAX_LENGTH < str_len (slugify (nfkd example_env) (item_name ?i))"
    by (simp only: in_)
  from b have bc: "SLUG_MAX_LENGTH < str_len (slugify (nfkd example_env) (category_name ?c))"
    by (simp only: cn)
  from t ri bi have "Item_save example_env example_db ?i =
      (Inl DataError, prepared example_env ?i ''uploads/soup.png_resized.jpg'', example_db, [])"
    by blast
  with s have i: "Item_save example_env example_db ?i =
     (Inl DataError,
      example_item\<lparr>item_name := ?n, image_thumbnail := ''uploads/soup.png_resized.jpg'',
                    item_slug := ?n\<rparr>, example_db, [])"
    by (simp add: prepared_def)
  from t rc bc have "Category_save example_env example_db ?c =
      (Inl DataError,
       ?c\<lparr>category_image := img,
           category_slug := slugify (nfkd example_env) (category_name ?c)\<rparr>,
       example_db, [])"
    by blast
  with s have c: "\<exists>c'. Category_save example_env example_db ?c =
         (Inl DataError, c', example_db, []) \<and> category_slug c' = ?n"
    by simp
  have ri': "resize_image example_env (item_image example_item) (Some THUMBNAIL_SUFFIX) =
              Inr ''uploads/soup.png_resized.jpg''"
    by code_simp
  from n k a b ri' i c show ?thesis by blast
qed

subsection \<open>Paths of URLs\<close>















end
